theory Spec2Isabelle
  imports
    Complex_Main
    "HOL-Library.Char_ord"
    "HOL-Library.List_Lexorder"
    "HOL-Library.Product_Lexorder"
begin

section \<open>The voice to-do agent: the task store of \<open>todo_agent.py\<close>\<close>

text \<open>
  The development embeds the class \<open>TodoAssistant\<close> of
  \<open>src/voice-todo-agent/todo_agent.py\<close>: its two fields, the file \<open>tasks.json\<close>
  it loads and saves, and its eight tool functions.

  Conventions of the embedding:
  \<^item> a Python \<open>str\<close> is a \<open>string\<close> holding its UTF-8 bytes; the order on strings is the
    lexicographic order on bytes, which on UTF-8 is Python's order on code points;
  \<^item> a Python \<open>int\<close> is an \<open>int\<close>;
  \<^item> a task, a \<open>dict\<close> with seven keys in the source, is a record with seven fields;
  \<^item> \<open>datetime.now()\<close>, already formatted, is an argument of the operation that reads it;
  \<^item> the outcome of writing the file is an argument of the operation that writes it;
  \<^item> the \<open>RunContext\<close> argument, which no operation reads, is left out.
\<close>

subsection \<open>Strings\<close>

text \<open>
  \<open>str.lower\<close> on ASCII: the letters \<open>A\<close> to \<open>Z\<close> move to \<open>a\<close> to \<open>z\<close>, every other
  byte stays. (Python also lowers letters beyond ASCII; the store compares the result
  with ASCII words only.)
\<close>

definition lower_char :: "char \<Rightarrow> char" where
  "lower_char c =
     (if CHR ''A'' \<le> c \<and> c \<le> CHR ''Z'' then char_of (of_char c + (32::nat)) else c)"

definition lower :: "string \<Rightarrow> string" where
  "lower s = map lower_char s"

text \<open>The decimal text of an integer, as an f-string prints it.\<close>

fun str_nat :: "nat \<Rightarrow> string" where
  "str_nat n =
     (if n < 10 then [char_of (48 + n)]
      else str_nat (n div 10) @ [char_of (48 + n mod 10)])"

declare str_nat.simps [simp del]

definition str_int :: "int \<Rightarrow> string" where
  "str_int i = (if i < 0 then CHR ''-'' # str_nat (nat (- i)) else str_nat (nat i))"

text \<open>A text between two apostrophes.\<close>

definition quoted :: "string \<Rightarrow> string" where
  "quoted s = [CHR 0x27] @ s @ [CHR 0x27]"

text \<open>The emoji of the messages, as UTF-8.\<close>

definition blue_circle :: string where
  "blue_circle = [CHR 0xF0, CHR 0x9F, CHR 0x94, CHR 0xB5]"
definition yellow_circle :: string where
  "yellow_circle = [CHR 0xF0, CHR 0x9F, CHR 0x9F, CHR 0xA1]"
definition orange_circle :: string where
  "orange_circle = [CHR 0xF0, CHR 0x9F, CHR 0x9F, CHR 0xA0]"
definition red_circle :: string where
  "red_circle = [CHR 0xF0, CHR 0x9F, CHR 0x94, CHR 0xB4]"
definition white_circle :: string where
  "white_circle = [CHR 0xE2, CHR 0x9A, CHR 0xAA]"
definition check_mark :: string where
  "check_mark = [CHR 0xE2, CHR 0x9C, CHR 0x85]"
definition white_square :: string where
  "white_square = [CHR 0xE2, CHR 0xAC, CHR 0x9C]"
definition bar_chart :: string where
  "bar_chart = [CHR 0xF0, CHR 0x9F, CHR 0x93, CHR 0x8A]"
definition party_popper :: string where
  "party_popper = [CHR 0xF0, CHR 0x9F, CHR 0x8E, CHR 0x89]"
definition glowing_star :: string where
  "glowing_star = [CHR 0xF0, CHR 0x9F, CHR 0x8C, CHR 0x9F]"
definition thumbs_up :: string where
  "thumbs_up = [CHR 0xF0, CHR 0x9F, CHR 0x91, CHR 0x8D]"
definition flexed_biceps :: string where
  "flexed_biceps = [CHR 0xF0, CHR 0x9F, CHR 0x92, CHR 0xAA]"
definition rocket :: string where
  "rocket = [CHR 0xF0, CHR 0x9F, CHR 0x9A, CHR 0x80]"
definition broom :: string where
  "broom = [CHR 0xF0, CHR 0x9F, CHR 0xA7, CHR 0xB9]"
definition newline :: string where
  "newline = [CHR 0x0A]"

subsection \<open>Tasks, the assistant and the file\<close>

text \<open>
  The dict that \<open>add_task\<close> builds. The key \<open>id\<close> is the field \<open>task_id\<close>
  (\<open>id\<close> is the identity function of HOL).
\<close>

record task =
  task_id :: int
  description :: string
  priority :: string
  status :: string
  created_at :: string
  due_date :: "string option"
  completed_at :: "string option"

text \<open>The two fields that \<open>__init__\<close> sets.\<close>

record todo_assistant =
  tasks :: "task list"
  task_id_counter :: int

text \<open>
  What \<open>json.load\<close> returns. An object keeps its items in the order of the dict;
  \<open>map_of\<close> reads a key. A number with a fraction or an exponent keeps its text:
  the store never computes with one.
\<close>

datatype json =
    JNull
  | JBool bool
  | JInt int
  | JFloat string
  | JStr string
  | JList "json list"
  | JObj "(string \<times> json) list"

text \<open>
  The file \<open>tasks.json\<close>: absent; present but \<open>open\<close> or \<open>json.load\<close> raises, with the
  text of the exception; or present and parsed.
\<close>

datatype tasks_file = Missing | Unreadable string | Parsed json

text \<open>
  What happens when \<open>save_tasks\<close> writes: the write succeeds; \<open>open\<close> raises and the
  file stays as it was; or \<open>json.dump\<close> raises after \<open>open\<close> has truncated the file,
  which leaves a text that does not parse (the exception that a later \<open>json.load\<close>
  raises on it is the second argument).
\<close>

datatype write_outcome = Written | OpenFailed string | DumpFailed string string

text \<open>The assistant, the file, and the lines printed so far.\<close>

record world =
  assistant :: todo_assistant
  disk :: tasks_file
  console :: "string list"

definition print :: "string \<Rightarrow> world \<Rightarrow> world" where
  "print line w = w\<lparr>console := console w @ [line]\<rparr>"

subsection \<open>Saving\<close>

definition json_of_optional :: "string option \<Rightarrow> json" where
  "json_of_optional x = (case x of None \<Rightarrow> JNull | Some s \<Rightarrow> JStr s)"

definition json_of_task :: "task \<Rightarrow> json" where
  "json_of_task t = JObj
     [(''id'', JInt (task_id t)),
      (''description'', JStr (description t)),
      (''priority'', JStr (priority t)),
      (''status'', JStr (status t)),
      (''created_at'', JStr (created_at t)),
      (''due_date'', json_of_optional (due_date t)),
      (''completed_at'', json_of_optional (completed_at t))]"

definition json_of_assistant :: "todo_assistant \<Rightarrow> json" where
  "json_of_assistant a = JObj
     [(''tasks'', JList (map json_of_task (tasks a))),
      (''next_id'', JInt (task_id_counter a))]"

definition save_tasks :: "write_outcome \<Rightarrow> world \<Rightarrow> world" where
  "save_tasks wo w =
     (case wo of
        Written \<Rightarrow> w\<lparr>disk := Parsed (json_of_assistant (assistant w))\<rparr>
      | OpenFailed e \<Rightarrow> print (''Could not save tasks: '' @ e) w
      | DumpFailed e e' \<Rightarrow>
          print (''Could not save tasks: '' @ e) (w\<lparr>disk := Unreadable e'\<rparr>))"

subsection \<open>Loading\<close>

text \<open>
  \<open>load_tasks\<close> stores what \<open>data.get\<close> returns, of whatever shape. The assistant of
  this development holds tasks of the shape \<open>add_task\<close> builds, so the loaded value is
  read back into that shape: a dict with exactly the seven keys, an integer \<open>id\<close>,
  four texts and two optional texts. A file whose \<open>tasks\<close> or \<open>next_id\<close> has another
  shape has no counterpart here, and \<open>load_tasks\<close> is \<open>None\<close> on it.
\<close>

definition dict_get :: "(string \<times> json) list \<Rightarrow> string \<Rightarrow> json \<Rightarrow> json" where
  "dict_get items k d = (case map_of items k of None \<Rightarrow> d | Some v \<Rightarrow> v)"

fun int_of_json :: "json \<Rightarrow> int option" where
  "int_of_json (JInt n) = Some n"
| "int_of_json _ = None"

fun str_of_json :: "json \<Rightarrow> string option" where
  "str_of_json (JStr s) = Some s"
| "str_of_json _ = None"

fun optional_of_json :: "json \<Rightarrow> string option option" where
  "optional_of_json JNull = Some None"
| "optional_of_json (JStr s) = Some (Some s)"
| "optional_of_json _ = None"

definition task_of_items :: "(string \<times> json) list \<Rightarrow> task option" where
  "task_of_items items =
     (if length items \<noteq> 7 then None
      else
        case (Option.bind (map_of items ''id'') int_of_json,
              Option.bind (map_of items ''description'') str_of_json,
              Option.bind (map_of items ''priority'') str_of_json,
              Option.bind (map_of items ''status'') str_of_json,
              Option.bind (map_of items ''created_at'') str_of_json,
              Option.bind (map_of items ''due_date'') optional_of_json,
              Option.bind (map_of items ''completed_at'') optional_of_json) of
          (Some i, Some d, Some p, Some s, Some c, Some dd, Some ca) \<Rightarrow>
            Some \<lparr>task_id = i, description = d, priority = p, status = s,
                  created_at = c, due_date = dd, completed_at = ca\<rparr>
        | _ \<Rightarrow> None)"

fun task_of_json :: "json \<Rightarrow> task option" where
  "task_of_json (JObj items) = task_of_items items"
| "task_of_json _ = None"

fun tasks_of_list :: "json list \<Rightarrow> task list option" where
  "tasks_of_list [] = Some []"
| "tasks_of_list (j # js) =
     (case task_of_json j of
        None \<Rightarrow> None
      | Some t \<Rightarrow> (case tasks_of_list js of None \<Rightarrow> None | Some ts \<Rightarrow> Some (t # ts)))"

fun tasks_of_json :: "json \<Rightarrow> task list option" where
  "tasks_of_json (JList js) = tasks_of_list js"
| "tasks_of_json _ = None"

text \<open>The name of the type in the \<open>AttributeError\<close> that \<open>data.get\<close> raises.\<close>

fun type_name :: "json \<Rightarrow> string" where
  "type_name JNull = ''NoneType''"
| "type_name (JBool _) = ''bool''"
| "type_name (JInt _) = ''int''"
| "type_name (JFloat _) = ''float''"
| "type_name (JStr _) = ''str''"
| "type_name (JList _) = ''list''"
| "type_name (JObj _) = ''dict''"

definition load_tasks :: "world \<Rightarrow> world option" where
  "load_tasks w =
     (case disk w of
        Missing \<Rightarrow> Some w
      | Unreadable e \<Rightarrow> Some (print (''Could not load tasks: '' @ e) w)
      | Parsed data \<Rightarrow>
          (case data of
             JObj items \<Rightarrow>
               (case (tasks_of_json (dict_get items ''tasks'' (JList [])),
                      int_of_json (dict_get items ''next_id'' (JInt 1))) of
                  (Some ts, Some n) \<Rightarrow>
                    Some (w\<lparr>assistant := \<lparr>tasks = ts, task_id_counter = n\<rparr>\<rparr>)
                | _ \<Rightarrow> None)
           | _ \<Rightarrow>
               Some (print (''Could not load tasks: '' @ quoted (type_name data)
                            @ '' object has no attribute '' @ quoted ''get'') w)))"

text \<open>
  \<open>__init__\<close>: an empty list, the counter at 1, then \<open>load_tasks\<close>. The argument gives
  the file and the console the new assistant finds.
\<close>

definition empty_assistant :: todo_assistant where
  "empty_assistant = \<lparr>tasks = [], task_id_counter = 1\<rparr>"

definition init :: "world \<Rightarrow> world option" where
  "init w = load_tasks (w\<lparr>assistant := empty_assistant\<rparr>)"

subsection \<open>The operations that change the list\<close>

text \<open>The lookup \<open>{"low": .., "medium": .., "high": .., "urgent": ..}.get(p, ..)\<close>.\<close>

definition priority_emoji :: "string \<Rightarrow> string" where
  "priority_emoji p =
     (case map_of [(''low'', blue_circle), (''medium'', yellow_circle),
                   (''high'', orange_circle), (''urgent'', red_circle)] p of
        None \<Rightarrow> white_circle
      | Some e \<Rightarrow> e)"

text \<open>
  The text \<open>" (due ...)"\<close> that three messages add under \<open>if due_date:\<close>. Python
  takes \<open>None\<close> and the empty text as false, every other text as true.
\<close>

definition due_suffix :: "string option \<Rightarrow> string" where
  "due_suffix due =
     (case due of
        None \<Rightarrow> []
      | Some d \<Rightarrow> if d \<noteq> [] then '' (due '' @ d @ '')'' else [])"

text \<open>
  \<open>add_task\<close>. The source gives \<open>priority\<close> the default \<open>"medium"\<close> and \<open>due_date\<close>
  the default \<open>None\<close>; a caller that leaves them out passes these values.
\<close>

definition add_task ::
  "write_outcome \<Rightarrow> string \<Rightarrow> string \<Rightarrow> string \<Rightarrow> string option \<Rightarrow> world \<Rightarrow> world \<times> string"
where
  "add_task wo now task_description priority_arg due w =
     (let task = \<lparr>task_id = task_id_counter (assistant w),
                  description = task_description,
                  priority = lower priority_arg,
                  status = ''pending'',
                  created_at = now,
                  due_date = due,
                  completed_at = None\<rparr>;
          a1 = (assistant w)\<lparr>tasks := tasks (assistant w) @ [task]\<rparr>;
          a2 = a1\<lparr>task_id_counter := task_id_counter a1 + 1\<rparr>;
          w' = save_tasks wo (w\<lparr>assistant := a2\<rparr>);
          response = ''Got it! I've added '' @ quoted task_description
                     @ '' to your list '' @ priority_emoji (lower priority_arg)
      in (w', response @ due_suffix due))"

text \<open>
  The loops \<open>for task in self.tasks: if task["id"] == task_id: ... return\<close> act on the
  first task with the id: \<open>find_task\<close> is its index.
\<close>

fun find_task :: "int \<Rightarrow> task list \<Rightarrow> nat option" where
  "find_task i [] = None"
| "find_task i (t # ts) =
     (if task_id t = i then Some 0 else map_option Suc (find_task i ts))"

definition count_status :: "string \<Rightarrow> task list \<Rightarrow> int" where
  "count_status st ts = int (length (filter (\<lambda>t. status t = st) ts))"

definition already_completed_message :: "task \<Rightarrow> string" where
  "already_completed_message t =
     ''Task '' @ quoted (description t) @ '' is already completed! '' @ party_popper"

definition completed_message :: "task \<Rightarrow> int \<Rightarrow> string" where
  "completed_message t remaining =
     ''Awesome! '' @ check_mark @ '' You completed '' @ quoted (description t)
     @ (if remaining = 0 then
          newline @ newline @ party_popper
          @ '' Amazing! You've completed all your tasks! You're crushing it today!''
        else if remaining = 1 then
          newline @ newline @ ''Just 1 more task to go! You're almost done!''
        else
          newline @ newline @ str_int remaining
          @ '' tasks remaining. Keep up the great work!'')"

definition complete_task :: "write_outcome \<Rightarrow> string \<Rightarrow> int \<Rightarrow> world \<Rightarrow> world \<times> string" where
  "complete_task wo now i w =
     (let ts = tasks (assistant w) in
      case find_task i ts of
        None \<Rightarrow>
          (w, ''I couldn't find a task with ID '' @ str_int i
              @ ''. Try listing your tasks to see the IDs.'')
      | Some n \<Rightarrow>
          let task = ts ! n in
          if status task = ''completed'' then (w, already_completed_message task)
          else
            let task' = task\<lparr>status := ''completed'', completed_at := Some now\<rparr>;
                w' = save_tasks wo (w\<lparr>assistant := (assistant w)\<lparr>tasks := ts[n := task']\<rparr>\<rparr>);
                remaining = count_status ''pending'' (tasks (assistant w'))
            in (w', completed_message task' remaining))"

definition delete_task :: "write_outcome \<Rightarrow> int \<Rightarrow> world \<Rightarrow> world \<times> string" where
  "delete_task wo i w =
     (let ts = tasks (assistant w) in
      case find_task i ts of
        None \<Rightarrow> (w, ''I couldn't find a task with ID '' @ str_int i @ ''.'')
      | Some n \<Rightarrow>
          let task = ts ! n;
              w' = save_tasks wo
                     (w\<lparr>assistant := (assistant w)\<lparr>tasks := take n ts @ drop (Suc n) ts\<rparr>\<rparr>)
          in (w', ''Removed '' @ quoted (description task) @ '' from your list.''))"

definition update_task_priority ::
  "write_outcome \<Rightarrow> int \<Rightarrow> string \<Rightarrow> world \<Rightarrow> world \<times> string"
where
  "update_task_priority wo i new_priority w =
     (let ts = tasks (assistant w) in
      case find_task i ts of
        None \<Rightarrow> (w, ''I couldn't find a task with ID '' @ str_int i @ ''.'')
      | Some n \<Rightarrow>
          let task = ts ! n;
              old_priority = priority task;
              task' = task\<lparr>priority := lower new_priority\<rparr>;
              w' = save_tasks wo (w\<lparr>assistant := (assistant w)\<lparr>tasks := ts[n := task']\<rparr>\<rparr>)
          in (w', ''Updated '' @ quoted (description task') @ '' from '' @ old_priority
                  @ '' to '' @ new_priority @ '' priority ''
                  @ priority_emoji (lower new_priority)))"

definition clear_completed_tasks :: "write_outcome \<Rightarrow> world \<Rightarrow> world \<times> string" where
  "clear_completed_tasks wo w =
     (let completed = filter (\<lambda>t. status t = ''completed'') (tasks (assistant w)) in
      if completed = [] then (w, ''No completed tasks to clear.'')
      else
        let count = int (length completed);
            w' = save_tasks wo
                   (w\<lparr>assistant := (assistant w)
                        \<lparr>tasks := filter (\<lambda>t. status t \<noteq> ''completed'') (tasks (assistant w))\<rparr>\<rparr>)
        in (w', ''Cleared '' @ str_int count @ '' completed task''
                @ (if count \<noteq> 1 then ''s'' else []) @ ''. Fresh start! '' @ broom))"

subsection \<open>Listing\<close>

text \<open>
  The chain of \<open>if\<close> and \<open>elif\<close> in the loop of \<open>list_tasks\<close>; \<open>today\<close> is
  \<open>datetime.now().strftime("%Y-%m-%d")\<close>.
\<close>

definition matches :: "string \<Rightarrow> string \<Rightarrow> task \<Rightarrow> bool" where
  "matches today filter_lower t =
     (if filter_lower = ''all'' then True
      else if filter_lower = ''pending'' \<and> status t = ''pending'' then True
      else if filter_lower = ''completed'' \<and> status t = ''completed'' then True
      else if filter_lower = ''today'' \<and> due_date t \<in> set [Some ''today'', Some today] then True
      else if filter_lower = ''high-priority'' \<and> priority t \<in> set [''high'', ''urgent''] then True
      else False)"

definition task_line :: "task \<Rightarrow> string" where
  "task_line t =
     (if status t = ''completed'' then check_mark else white_square)
     @ '' '' @ priority_emoji (priority t) @ '' '' @ description t
     @ due_suffix (due_date t)
     @ '' [ID: '' @ str_int (task_id t) @ '']'' @ newline"

definition list_footer :: "task list \<Rightarrow> string" where
  "list_footer ts =
     newline @ bar_chart @ '' Total: '' @ str_int (int (length ts)) @ '' tasks (''
     @ str_int (count_status ''pending'' ts) @ '' pending, ''
     @ str_int (count_status ''completed'' ts) @ '' completed)''"

definition empty_list_message :: string where
  "empty_list_message = ''Your to-do list is empty! What would you like to accomplish today?''"

text \<open>
  The answer of \<open>list_tasks\<close> once the tasks are filtered: \<open>filtered_tasks\<close> are the
  tasks to show, \<open>all_tasks\<close> is \<open>self.tasks\<close>.
\<close>

definition listing :: "string \<Rightarrow> task list \<Rightarrow> task list \<Rightarrow> string" where
  "listing filter_by filtered_tasks all_tasks =
     (if filtered_tasks = [] then ''No '' @ filter_by @ '' tasks found.''
      else
        ''Here are your '' @ filter_by @ '' tasks:'' @ newline @ newline
        @ concat (map task_line filtered_tasks)
        @ list_footer all_tasks)"

definition list_tasks :: "string \<Rightarrow> string \<Rightarrow> todo_assistant \<Rightarrow> string" where
  "list_tasks today filter_by a =
     (if tasks a = [] then empty_list_message
      else listing filter_by (filter (matches today (lower filter_by)) (tasks a)) (tasks a))"

subsection \<open>Suggesting\<close>

definition priority_order :: "(string \<times> int) list" where
  "priority_order = [(''urgent'', 0), (''high'', 1), (''medium'', 2), (''low'', 3)]"

text \<open>The key of \<open>sorted\<close>: a pair, compared first by rank, then by text.\<close>

definition sort_key_of :: "task \<Rightarrow> int \<times> string" where
  "sort_key_of t =
     (case map_of priority_order (priority t) of None \<Rightarrow> 4 | Some r \<Rightarrow> r,
      case due_date t of
        None \<Rightarrow> ''9999''
      | Some d \<Rightarrow> if d \<noteq> [] then d else ''9999'')"

text \<open>
  \<open>sorted\<close> is stable: tasks with equal keys keep their order. So is \<open>sort_key\<close>, and a
  stable sort has one result only.
\<close>

definition pending_tasks :: "todo_assistant \<Rightarrow> task list" where
  "pending_tasks a = filter (\<lambda>t. status t = ''pending'') (tasks a)"

definition sorted_tasks :: "todo_assistant \<Rightarrow> task list" where
  "sorted_tasks a = sort_key sort_key_of (pending_tasks a)"

text \<open>\<open>sorted_tasks[0]\<close>, behind the test that a task is pending.\<close>

definition next_task :: "todo_assistant \<Rightarrow> task option" where
  "next_task a = (if pending_tasks a = [] then None else Some (hd (sorted_tasks a)))"

definition all_done_message :: string where
  "all_done_message =
     ''You've completed all your tasks! '' @ party_popper @ '' Want to add something new?''"

definition suggestion_message :: "task \<Rightarrow> task list \<Rightarrow> string" where
  "suggestion_message t pending =
     ''I suggest working on: '' @ priority_emoji (priority t) @ '' '' @ quoted (description t)
     @ due_suffix (due_date t)
     @ newline @ newline @ ''This is your '' @ priority t @ '' priority task.''
     @ (if length pending > 1 then
          '' You have '' @ str_int (int (length pending) - 1) @ '' other tasks waiting.''
        else [])"

definition suggest_next_task :: "todo_assistant \<Rightarrow> string" where
  "suggest_next_task a =
     (case next_task a of
        None \<Rightarrow> all_done_message
      | Some t \<Rightarrow> suggestion_message t (pending_tasks a))"

subsection \<open>Floating point\<close>

text \<open>
  \<open>completed / total\<close> divides two integers into a \<open>float\<close>, and \<open>* 100\<close> multiplies
  floats: each result is the exact one rounded to the nearest binary64 number, a tie
  going to the even mantissa. A \<open>float\<close> is here the rational it stands for. A binary64
  number in the normal range is \<open>m / 2 ^ k\<close> with \<open>2 ^ 52 \<le> m < 2 ^ 53\<close>, and
  \<open>binary64\<close> rounds to these; it does not model overflow or subnormal numbers, which
  a quotient of two list lengths and its hundredfold do not reach.
\<close>

fun bit_length :: "nat \<Rightarrow> nat" where
  "bit_length n = (if n = 0 then 0 else Suc (bit_length (n div 2)))"

declare bit_length.simps [simp del]

text \<open>For \<open>0 < x\<close>, the integer \<open>e\<close> with \<open>2 ^ e \<le> x < 2 ^ (e + 1)\<close>.\<close>

definition ilog2 :: "rat \<Rightarrow> int" where
  "ilog2 x =
     (if 1 \<le> x then int (bit_length (nat \<lfloor>x\<rfloor>)) - 1
      else - int (bit_length (nat (\<lceil>1 / x\<rceil> - 1))))"

definition pow2 :: "int \<Rightarrow> rat" where
  "pow2 k = (if 0 \<le> k then 2 ^ nat k else 1 / 2 ^ nat (- k))"

definition round_half_even :: "rat \<Rightarrow> int" where
  "round_half_even x =
     (let f = \<lfloor>x\<rfloor>; d = x - of_int f
      in if d < 1 / 2 then f
         else if 1 / 2 < d then f + 1
         else if even f then f
         else f + 1)"

definition binary64 :: "rat \<Rightarrow> rat" where
  "binary64 x =
     (if x = 0 then 0
      else
        let k = 52 - ilog2 \<bar>x\<bar>
        in sgn x * of_int (round_half_even (\<bar>x\<bar> * pow2 k)) / pow2 k)"

text \<open>
  The format \<open>.0f\<close> prints the integer nearest to the float, a tie going to the even
  one.
\<close>

definition format_0f :: "rat \<Rightarrow> string" where
  "format_0f x = str_int (round_half_even x)"

subsection \<open>The daily summary\<close>

definition completion_rate :: "int \<Rightarrow> int \<Rightarrow> rat" where
  "completion_rate completed total_tasks =
     (if total_tasks > 0 then binary64 (binary64 (of_int completed / of_int total_tasks) * 100)
      else 0)"

definition tier5 :: string where
  "tier5 = party_popper @ '' Perfect! You've completed everything!''"
definition tier4 :: string where
  "tier4 = glowing_star @ '' Great progress! You're almost there!''"
definition tier3 :: string where
  "tier3 = thumbs_up @ '' Good work! Keep it up!''"
definition tier2 :: string where
  "tier2 = flexed_biceps @ '' You're making progress! Stay focused!''"
definition tier1 :: string where
  "tier1 = rocket @ '' Let's get started! You've got this!''"

definition encouragement :: "rat \<Rightarrow> string" where
  "encouragement rate =
     (if rate = 100 then tier5
      else if rate \<ge> 75 then tier4
      else if rate \<ge> 50 then tier3
      else if rate \<ge> 25 then tier2
      else tier1)"

definition high_priority_pending :: "task list \<Rightarrow> int" where
  "high_priority_pending ts =
     int (length (filter (\<lambda>t. priority t \<in> set [''high'', ''urgent'']
                              \<and> status t = ''pending'') ts))"

definition summary_text :: "int \<Rightarrow> int \<Rightarrow> int \<Rightarrow> int \<Rightarrow> string \<Rightarrow> string \<Rightarrow> string" where
  "summary_text total_tasks completed pending high_priority progress message =
     bar_chart @ '' Daily Summary'' @ newline @ newline
     @ ''Total tasks: '' @ str_int total_tasks @ newline
     @ check_mark @ '' Completed: '' @ str_int completed @ newline
     @ white_square @ '' Pending: '' @ str_int pending @ newline
     @ red_circle @ '' High priority: '' @ str_int high_priority @ newline
     @ ''Progress: '' @ progress @ ''%'' @ newline @ newline
     @ message"

text \<open>The variable \<open>total\<close> of the source is \<open>total_tasks\<close> (\<open>total\<close> is a constant of HOL).\<close>

definition empty_summary :: string where
  "empty_summary = ''You don't have any tasks yet. What would you like to accomplish today?''"

definition get_daily_summary :: "todo_assistant \<Rightarrow> string" where
  "get_daily_summary a =
     (if tasks a = [] then empty_summary
      else
        let total_tasks = int (length (tasks a));
            completed = count_status ''completed'' (tasks a);
            pending = count_status ''pending'' (tasks a);
            high_priority = high_priority_pending (tasks a);
            rate = completion_rate completed total_tasks
        in summary_text total_tasks completed pending high_priority
             (format_0f rate) (encouragement rate))"

subsection \<open>Sequences of calls\<close>

text \<open>
  One call of a tool function by the runtime, with what the call reads from its
  environment: the outcome of the write and the clock.
\<close>

datatype command =
    Add write_outcome string string string "string option"
  | List_tasks string string
  | Complete write_outcome string int
  | Delete write_outcome int
  | Update_priority write_outcome int string
  | Daily_summary
  | Suggest_next
  | Clear_completed write_outcome

fun call :: "command \<Rightarrow> world \<Rightarrow> world \<times> string" where
  "call (Add wo now d p due) w = add_task wo now d p due w"
| "call (List_tasks today f) w = (w, list_tasks today f (assistant w))"
| "call (Complete wo now i) w = complete_task wo now i w"
| "call (Delete wo i) w = delete_task wo i w"
| "call (Update_priority wo i p) w = update_task_priority wo i p w"
| "call Daily_summary w = (w, get_daily_summary (assistant w))"
| "call Suggest_next w = (w, suggest_next_task (assistant w))"
| "call (Clear_completed wo) w = clear_completed_tasks wo w"

fun run :: "command list \<Rightarrow> world \<Rightarrow> world" where
  "run [] w = w"
| "run (c # cs) w = run cs (fst (call c w))"

text \<open>The ids that the calls of \<open>add_task\<close> in a sequence give, in the order of the calls.\<close>

fun assigned_ids :: "command list \<Rightarrow> world \<Rightarrow> int list" where
  "assigned_ids [] w = []"
| "assigned_ids (c # cs) w =
     (case c of
        Add wo now d p due \<Rightarrow> [task_id (last (tasks (assistant (fst (call c w)))))]
      | _ \<Rightarrow> [])
     @ assigned_ids cs (fst (call c w))"

text \<open>The counter after each call of a sequence, the starting value first.\<close>

fun counter_trace :: "command list \<Rightarrow> world \<Rightarrow> int list" where
  "counter_trace [] w = [task_id_counter (assistant w)]"
| "counter_trace (c # cs) w =
     task_id_counter (assistant w) # counter_trace cs (fst (call c w))"

text \<open>A world whose assistant has just been made and has loaded nothing.\<close>

definition empty_world :: "tasks_file \<Rightarrow> world" where
  "empty_world f = \<lparr>assistant = empty_assistant, disk = f, console = []\<rparr>"

subsection \<open>Histories of a sequence of calls\<close>

text \<open>The descriptions that the calls of \<open>add_task\<close> in a sequence were given.\<close>

fun descriptions_added :: "command list \<Rightarrow> string list" where
  "descriptions_added [] = []"
| "descriptions_added (Add wo now d p due # cs) = d # descriptions_added cs"
| "descriptions_added (c # cs) = descriptions_added cs"

subsection \<open>Example inputs\<close>

text \<open>Three additions, with a deletion and a completion between them.\<close>

definition demo_calls :: "command list" where
  "demo_calls =
     [Add Written ''2025-10-01 09:00'' ''buy milk'' ''high'' None,
      Delete Written 1,
      Add (OpenFailed ''Permission denied'') ''2025-10-01 09:05'' ''write report''
        ''medium'' (Some ''today''),
      Complete Written ''2025-10-01 09:10'' 2,
      Add Written ''2025-10-01 09:20'' ''call home'' ''LOW'' None]"

text \<open>One pending task, and the same task completed.\<close>

definition one_pending :: world where
  "one_pending =
     run [Add Written ''2025-10-01 09:00'' ''buy milk'' ''high'' None] (empty_world Missing)"

definition one_completed :: world where
  "one_completed =
     run [Add Written ''2025-10-01 09:00'' ''buy milk'' ''high'' None,
          Complete Written ''2025-10-01 09:30'' 1] (empty_world Missing)"

text \<open>A call of \<open>add_task\<close> with the empty text as description.\<close>

definition add_nameless :: command where
  "add_nameless = Add Written ''2025-10-01 09:00'' [] ''medium'' None"

subsection \<open>The key of the suggestion in the words of the specification\<close>

text \<open>
  The specification's key: the rank of the priority, then the text of the due date,
  an absent due date counting as \<open>"9999"\<close>.
\<close>

definition spec_sort_key :: "task \<Rightarrow> int \<times> string" where
  "spec_sort_key t =
     (if priority t = ''urgent'' then 0
      else if priority t = ''high'' then 1
      else if priority t = ''medium'' then 2
      else if priority t = ''low'' then 3
      else 4,
      case due_date t of None \<Rightarrow> ''9999'' | Some d \<Rightarrow> d)"

text \<open>A pending task made at a fixed time, and assistants that hold such tasks.\<close>

definition pending_task :: "int \<Rightarrow> string \<Rightarrow> string \<Rightarrow> string option \<Rightarrow> task" where
  "pending_task i d p due =
     \<lparr>task_id = i, description = d, priority = p, status = ''pending'',
      created_at = ''2025-10-01 09:00'', due_date = due, completed_at = None\<rparr>"

definition four_pending :: todo_assistant where
  "four_pending =
     \<lparr>tasks = [pending_task 1 ''tidy desk'' ''low'' None,
               pending_task 2 ''pay rent'' ''urgent'' (Some ''Oct 5''),
               pending_task 3 ''buy milk'' ''medium'' (Some ''today''),
               pending_task 4 ''file taxes'' ''urgent'' (Some ''Oct 1'')],
      task_id_counter = 5\<rparr>"

definition empty_due_first :: todo_assistant where
  "empty_due_first =
     \<lparr>tasks = [pending_task 1 ''tidy desk'' ''medium'' (Some ''''),
               pending_task 2 ''pay rent'' ''medium'' (Some ''2025-10-01'')],
      task_id_counter = 3\<rparr>"

definition dated_then_undated :: todo_assistant where
  "dated_then_undated =
     \<lparr>tasks = [pending_task 1 ''buy milk'' ''medium'' (Some ''today''),
               pending_task 2 ''tidy desk'' ''medium'' None],
      task_id_counter = 3\<rparr>"

text \<open>An ASCII letter.\<close>

definition is_letter :: "char \<Rightarrow> bool" where
  "is_letter c \<longleftrightarrow>
     (CHR ''A'' \<le> c \<and> c \<le> CHR ''Z'') \<or> (CHR ''a'' \<le> c \<and> c \<le> CHR ''z'')"

text \<open>A completed task, and an assistant with tasks of every kind.\<close>

definition completed_task :: "int \<Rightarrow> string \<Rightarrow> string \<Rightarrow> string option \<Rightarrow> task" where
  "completed_task i d p due =
     \<lparr>task_id = i, description = d, priority = p, status = ''completed'',
      created_at = ''2025-10-01 09:00'', due_date = due,
      completed_at = Some ''2025-10-01 17:00''\<rparr>"

definition mixed_tasks :: todo_assistant where
  "mixed_tasks =
     \<lparr>tasks = [pending_task 1 ''tidy desk'' ''low'' (Some ''tomorrow''),
               completed_task 2 ''pay rent'' ''urgent'' (Some ''2025-10-02''),
               pending_task 3 ''buy milk'' ''high'' (Some ''today''),
               pending_task 4 ''file taxes'' ''medium'' (Some ''2025-10-02'')],
      task_id_counter = 5\<rparr>"

text \<open>A file with one task and no \<open>next_id\<close>.\<close>

definition file_without_next_id :: tasks_file where
  "file_without_next_id =
     Parsed (JObj [(''tasks'', JList [json_of_task (pending_task 1 ''buy milk'' ''high'' None)])])"

subsection \<open>The encouragement in the words of the specification\<close>

text \<open>
  The specification selects the message from the completion rate it reports, the
  quotient rounded to an integer.
\<close>

definition spec_encouragement :: "int \<Rightarrow> string" where
  "spec_encouragement reported_rate =
     (if reported_rate = 100 then tier5
      else if reported_rate \<ge> 75 then tier4
      else if reported_rate \<ge> 50 then tier3
      else if reported_rate \<ge> 25 then tier2
      else tier1)"

text \<open>Four tasks of which three are completed; 51 tasks of which 38 are completed.\<close>

definition three_of_four :: todo_assistant where
  "three_of_four =
     \<lparr>tasks = [completed_task 1 ''tidy desk'' ''low'' None,
               completed_task 2 ''pay rent'' ''urgent'' None,
               pending_task 3 ''buy milk'' ''medium'' None,
               completed_task 4 ''file taxes'' ''high'' None],
      task_id_counter = 5\<rparr>"

definition thirty_eight_of_fifty_one :: todo_assistant where
  "thirty_eight_of_fifty_one =
     \<lparr>tasks = map (\<lambda>i. completed_task (int i) ''read a chapter'' ''medium'' None) [1..<39]
              @ map (\<lambda>i. pending_task (int i) ''read a chapter'' ''medium'' None) [39..<52],
      task_id_counter = 52\<rparr>"

section \<open>Properties\<close>

subsection \<open>What each operation does to the assistant\<close>

lemma assistant_save_tasks [simp]: "assistant (save_tasks wo w) = assistant w"
  by (cases wo) (simp_all add: save_tasks_def print_def)

lemma assistant_add_task:
  "assistant (fst (add_task wo now d p due w)) =
     \<lparr>tasks = tasks (assistant w) @
        [\<lparr>task_id = task_id_counter (assistant w), description = d, priority = lower p,
          status = ''pending'', created_at = now, due_date = due, completed_at = None\<rparr>],
      task_id_counter = task_id_counter (assistant w) + 1\<rparr>"
  by (simp add: add_task_def Let_def)

lemma find_task_Some:
  "find_task i ts = Some n \<Longrightarrow> n < length ts \<and> task_id (ts ! n) = i \<and> (\<forall>m<n. task_id (ts ! m) \<noteq> i)"
proof (induction ts arbitrary: n)
  case Nil
  then show ?case by simp
next
  case (Cons t ts)
  show ?case
  proof (cases "task_id t = i")
    case True
    with Cons.prems show ?thesis by simp
  next
    case False
    with Cons.prems obtain k where k: "find_task i ts = Some k" "n = Suc k" by auto
    from Cons.IH [OF k(1)] False k(2) show ?thesis
      by (auto simp: less_Suc_eq_0_disj)
  qed
qed

lemma find_task_None: "find_task i ts = None \<Longrightarrow> \<forall>t\<in>set ts. task_id t \<noteq> i"
  by (induction ts) (auto split: if_splits)

lemma assistant_complete_task:
  "assistant (fst (complete_task wo now i w)) =
     (case find_task i (tasks (assistant w)) of
        None \<Rightarrow> assistant w
      | Some n \<Rightarrow>
          if status (tasks (assistant w) ! n) = ''completed'' then assistant w
          else (assistant w)\<lparr>tasks := (tasks (assistant w))
                 [n := (tasks (assistant w) ! n)\<lparr>status := ''completed'', completed_at := Some now\<rparr>]\<rparr>)"
  by (simp add: complete_task_def Let_def split: option.splits)

lemma assistant_delete_task:
  "assistant (fst (delete_task wo i w)) =
     (case find_task i (tasks (assistant w)) of
        None \<Rightarrow> assistant w
      | Some n \<Rightarrow> (assistant w)\<lparr>tasks := take n (tasks (assistant w)) @ drop (Suc n) (tasks (assistant w))\<rparr>)"
  by (simp add: delete_task_def Let_def split: option.splits)

lemma assistant_update_task_priority:
  "assistant (fst (update_task_priority wo i p w)) =
     (case find_task i (tasks (assistant w)) of
        None \<Rightarrow> assistant w
      | Some n \<Rightarrow> (assistant w)\<lparr>tasks := (tasks (assistant w))
                 [n := (tasks (assistant w) ! n)\<lparr>priority := lower p\<rparr>]\<rparr>)"
  by (simp add: update_task_priority_def Let_def split: option.splits)

lemma assistant_clear_completed_tasks:
  "assistant (fst (clear_completed_tasks wo w)) =
     (assistant w)\<lparr>tasks := filter (\<lambda>t. status t \<noteq> ''completed'') (tasks (assistant w))\<rparr>"
proof (cases "filter (\<lambda>t. status t = ''completed'') (tasks (assistant w)) = []")
  case True
  then have "filter (\<lambda>t. status t \<noteq> ''completed'') (tasks (assistant w)) = tasks (assistant w)"
    by (simp add: filter_empty_conv)
  with True show ?thesis by (simp add: clear_completed_tasks_def)
next
  case False
  then show ?thesis by (simp add: clear_completed_tasks_def Let_def)
qed

subsection \<open>Ids and the counter\<close>

lemma counter_call:
  "task_id_counter (assistant (fst (call c w))) =
     task_id_counter (assistant w) + (case c of Add _ _ _ _ _ \<Rightarrow> 1 | _ \<Rightarrow> 0)"
  by (cases c)
     (simp_all add: assistant_add_task assistant_complete_task assistant_delete_task
        assistant_update_task_priority assistant_clear_completed_tasks split: option.splits)

lemma counter_run_mono:
  "task_id_counter (assistant w) \<le> task_id_counter (assistant (run cs w))"
proof (induction cs arbitrary: w)
  case Nil
  show ?case by simp
next
  case (Cons c cs)
  have "task_id_counter (assistant w) \<le> task_id_counter (assistant (fst (call c w)))"
    by (simp add: counter_call split: command.splits)
  also have "\<dots> \<le> task_id_counter (assistant (run cs (fst (call c w))))"
    by (rule Cons.IH)
  finally show ?case by simp
qed

lemma assigned_ids_bounds:
  "\<forall>i\<in>set (assigned_ids cs w).
     task_id_counter (assistant w) \<le> i \<and> i < task_id_counter (assistant (run cs w))"
proof (induction cs arbitrary: w)
  case Nil
  show ?case by simp
next
  case (Cons c cs)
  let ?w = "fst (call c w)"
  have step: "task_id_counter (assistant w) \<le> task_id_counter (assistant ?w)"
    by (simp add: counter_call split: command.splits)
  have rest: "\<forall>i\<in>set (assigned_ids cs ?w).
      task_id_counter (assistant w) \<le> i \<and> i < task_id_counter (assistant (run cs ?w))"
    using Cons.IH [of ?w] step by auto
  show ?case
  proof (cases c)
    case (Add wo now d p due)
    have "task_id (last (tasks (assistant ?w))) = task_id_counter (assistant w)"
      by (simp add: Add assistant_add_task)
    moreover have "task_id_counter (assistant w) < task_id_counter (assistant ?w)"
      by (simp add: Add assistant_add_task)
    moreover note counter_run_mono [of ?w cs]
    ultimately show ?thesis using rest Add by auto
  qed (use rest in auto)
qed

lemma assigned_ids_increasing: "sorted_wrt (<) (assigned_ids cs w)"
proof (induction cs arbitrary: w)
  case Nil
  show ?case by simp
next
  case (Cons c cs)
  let ?w = "fst (call c w)"
  show ?case
  proof (cases c)
    case (Add wo now d p due)
    have "task_id (last (tasks (assistant ?w))) = task_id_counter (assistant w)"
      "task_id_counter (assistant ?w) = task_id_counter (assistant w) + 1"
      by (simp_all add: Add assistant_add_task)
    with assigned_ids_bounds [of cs ?w] Cons.IH [of ?w] Add show ?thesis
      by (auto simp: sorted_wrt_append)
  qed (use Cons.IH [of ?w] in auto)
qed

lemma counter_trace_sorted: "sorted (counter_trace cs w)"
proof (induction cs arbitrary: w)
  case Nil
  show ?case by simp
next
  case (Cons c cs)
  let ?w = "fst (call c w)"
  have hd: "\<forall>x\<in>set (counter_trace cs ?w). task_id_counter (assistant ?w) \<le> x"
    using Cons.IH [of ?w] by (cases cs) auto
  have "task_id_counter (assistant w) \<le> task_id_counter (assistant ?w)"
    by (simp add: counter_call split: command.splits)
  with hd Cons.IH [of ?w] show ?case by fastforce
qed

text \<open>
  Claim C3. Whatever calls follow the making of an empty assistant, with whatever
  outcomes of the writes: the ids that \<open>add_task\<close> gives are strictly increasing, so no
  id is given twice, also when deletions come between; every id given so far is below
  the counter, whether or not its task is still in the list; and the counter never
  decreases from one call to the next.
\<close>

theorem ids_strictly_increasing_never_reused:
  "sorted_wrt (<) (assigned_ids cs (empty_world f))
   \<and> distinct (assigned_ids cs (empty_world f))
   \<and> (\<forall>i\<in>set (assigned_ids cs (empty_world f)).
         i < task_id_counter (assistant (run cs (empty_world f))))
   \<and> sorted (counter_trace cs (empty_world f))"
proof -
  have inc: "sorted_wrt (<) (assigned_ids cs (empty_world f))"
    by (rule assigned_ids_increasing)
  then have "distinct (assigned_ids cs (empty_world f))"
    by (simp add: strict_sorted_iff)
  moreover have "\<forall>i\<in>set (assigned_ids cs (empty_world f)).
         i < task_id_counter (assistant (run cs (empty_world f)))"
    using assigned_ids_bounds [of cs "empty_world f"] by blast
  moreover have "sorted (counter_trace cs (empty_world f))"
    by (rule counter_trace_sorted)
  ultimately show ?thesis using inc by blast
qed

theorem ids_strictly_increasing_never_reused_witness:
  "assigned_ids demo_calls (empty_world Missing) = [1, 2, 3]
   \<and> sorted_wrt (<) (assigned_ids demo_calls (empty_world Missing))
   \<and> distinct (assigned_ids demo_calls (empty_world Missing))
   \<and> 3 < task_id_counter (assistant (run demo_calls (empty_world Missing)))
   \<and> sorted (counter_trace demo_calls (empty_world Missing))
   \<and> counter_trace demo_calls (empty_world Missing) = [1, 2, 2, 3, 3, 4]"
proof -
  have a: "assigned_ids demo_calls (empty_world Missing) = [1, 2, 3]"
    by (simp add: demo_calls_def empty_world_def empty_assistant_def assistant_add_task
          assistant_delete_task assistant_complete_task)
  have c: "counter_trace demo_calls (empty_world Missing) = [1, 2, 2, 3, 3, 4]"
    by (simp add: demo_calls_def empty_world_def empty_assistant_def assistant_add_task
          assistant_delete_task assistant_complete_task)
  show ?thesis
    using ids_strictly_increasing_never_reused [of demo_calls Missing] a c by simp
qed

subsection \<open>Status and completion time\<close>

lemma tasks_after_call:
  assumes "t \<in> set (tasks (assistant (fst (call c w))))"
  shows "t \<in> set (tasks (assistant w))
    \<or> (\<exists>wo now d p due. c = Add wo now d p due \<and>
          t = \<lparr>task_id = task_id_counter (assistant w), description = d, priority = lower p,
               status = ''pending'', created_at = now, due_date = due, completed_at = None\<rparr>)
    \<or> (\<exists>wo now i u. c = Complete wo now i \<and> u \<in> set (tasks (assistant w)) \<and>
          t = u\<lparr>status := ''completed'', completed_at := Some now\<rparr>)
    \<or> (\<exists>wo i p u. c = Update_priority wo i p \<and> u \<in> set (tasks (assistant w)) \<and>
          t = u\<lparr>priority := lower p\<rparr>)"
proof (cases c)
  case (Add wo now d p due)
  with assms show ?thesis by (auto simp: assistant_add_task)
next
  case (Complete wo now i)
  show ?thesis
  proof (cases "find_task i (tasks (assistant w))")
    case None
    with assms Complete show ?thesis by (simp add: assistant_complete_task)
  next
    case (Some n)
    then have n: "n < length (tasks (assistant w))" using find_task_Some by blast
    show ?thesis
    proof (cases "status (tasks (assistant w) ! n) = ''completed''")
      case True
      with assms Complete Some show ?thesis by (simp add: assistant_complete_task)
    next
      case False
      with assms Complete Some
      have "t \<in> set ((tasks (assistant w))
               [n := (tasks (assistant w) ! n)\<lparr>status := ''completed'', completed_at := Some now\<rparr>])"
        by (simp add: assistant_complete_task)
      then have "t = (tasks (assistant w) ! n)\<lparr>status := ''completed'', completed_at := Some now\<rparr>
                 \<or> t \<in> set (tasks (assistant w))"
        using set_update_subset_insert by fastforce
      with n Complete show ?thesis by (metis nth_mem)
    qed
  qed
next
  case (Delete wo i)
  show ?thesis
  proof (cases "find_task i (tasks (assistant w))")
    case None
    with assms Delete show ?thesis by (simp add: assistant_delete_task)
  next
    case (Some n)
    with assms Delete have "t \<in> set (take n (tasks (assistant w))) \<or> t \<in> set (drop (Suc n) (tasks (assistant w)))"
      by (simp add: assistant_delete_task)
    then show ?thesis by (meson in_set_takeD in_set_dropD)
  qed
next
  case (Update_priority wo i p)
  show ?thesis
  proof (cases "find_task i (tasks (assistant w))")
    case None
    with assms Update_priority show ?thesis by (simp add: assistant_update_task_priority)
  next
    case (Some n)
    then have n: "n < length (tasks (assistant w))" using find_task_Some by blast
    from assms Update_priority Some
    have "t \<in> set ((tasks (assistant w)) [n := (tasks (assistant w) ! n)\<lparr>priority := lower p\<rparr>])"
      by (simp add: assistant_update_task_priority)
    then have "t = (tasks (assistant w) ! n)\<lparr>priority := lower p\<rparr> \<or> t \<in> set (tasks (assistant w))"
      using set_update_subset_insert by fastforce
    with n Update_priority show ?thesis by (metis nth_mem)
  qed
next
  case (Clear_completed wo)
  with assms show ?thesis by (simp add: assistant_clear_completed_tasks)
qed (use assms in simp_all)

lemma coupled_call:
  assumes "\<forall>t\<in>set (tasks (assistant w)). (status t = ''completed'') = (completed_at t \<noteq> None)"
  shows "\<forall>t\<in>set (tasks (assistant (fst (call c w)))). (status t = ''completed'') = (completed_at t \<noteq> None)"
proof
  fix t assume "t \<in> set (tasks (assistant (fst (call c w))))"
  from tasks_after_call [OF this] assms show "(status t = ''completed'') = (completed_at t \<noteq> None)"
    by auto
qed

lemma coupled_run:
  "\<forall>t\<in>set (tasks (assistant w)). (status t = ''completed'') = (completed_at t \<noteq> None) \<Longrightarrow>
   \<forall>t\<in>set (tasks (assistant (run cs w))). (status t = ''completed'') = (completed_at t \<noteq> None)"
proof (induction cs arbitrary: w)
  case Nil
  then show ?case by simp
next
  case (Cons c cs)
  from Cons.IH [OF coupled_call [OF Cons.prems]] show ?case by simp
qed

lemma messages_differ: "already_completed_message u \<noteq> completed_message t r"
  by (simp add: already_completed_message_def completed_message_def)

lemma one_pending_eq:
  "one_pending =
     \<lparr>assistant = \<lparr>tasks = [\<lparr>task_id = 1, description = ''buy milk'', priority = ''high'',
          status = ''pending'', created_at = ''2025-10-01 09:00'', due_date = None,
          completed_at = None\<rparr>], task_id_counter = 2\<rparr>,
      disk = Parsed (JObj [(''tasks'', JList [JObj [(''id'', JInt 1), (''description'', JStr ''buy milk''),
           (''priority'', JStr ''high''), (''status'', JStr ''pending''),
           (''created_at'', JStr ''2025-10-01 09:00''), (''due_date'', JNull),
           (''completed_at'', JNull)]]), (''next_id'', JInt 2)]),
      console = []\<rparr>"
  by (simp add: one_pending_def empty_world_def empty_assistant_def add_task_def Let_def
        save_tasks_def json_of_assistant_def json_of_task_def json_of_optional_def lower_def lower_char_def)

lemma one_completed_eq:
  "assistant one_completed =
     \<lparr>tasks = [\<lparr>task_id = 1, description = ''buy milk'', priority = ''high'',
          status = ''completed'', created_at = ''2025-10-01 09:00'', due_date = None,
          completed_at = Some ''2025-10-01 09:30''\<rparr>], task_id_counter = 2\<rparr>"
  by (simp add: one_completed_def empty_world_def empty_assistant_def assistant_add_task
        assistant_complete_task lower_def lower_char_def)

text \<open>
  Claim C4. After every sequence of calls on an empty assistant, a task has the status
  \<open>completed\<close> if and only if its \<open>completed_at\<close> is set. When \<open>complete_task\<close> finds
  the id and the task it finds is pending, the task gets the status \<open>completed\<close> and
  \<open>completed_at\<close> becomes the time of the call, and the answer is the message of
  success. When the task it finds is completed already, nothing at all changes and the
  answer is the message that the task is completed already, which differs from every
  message of success. (The task found is the first one with the id; \<open>find_task\<close> gives
  its index.)
\<close>

theorem status_completed_iff_completed_at:
  "(\<forall>t\<in>set (tasks (assistant (run cs (empty_world f)))).
      (status t = ''completed'') = (completed_at t \<noteq> None))
   \<and> (find_task i (tasks (assistant w)) = Some n
        \<and> status (tasks (assistant w) ! n) = ''pending'' \<longrightarrow>
        tasks (assistant (fst (complete_task wo now i w)))
          = (tasks (assistant w))
              [n := (tasks (assistant w) ! n)\<lparr>status := ''completed'', completed_at := Some now\<rparr>]
        \<and> status (tasks (assistant (fst (complete_task wo now i w))) ! n) = ''completed''
        \<and> completed_at (tasks (assistant (fst (complete_task wo now i w))) ! n) = Some now
        \<and> snd (complete_task wo now i w)
            = completed_message (tasks (assistant (fst (complete_task wo now i w))) ! n)
                (count_status ''pending'' (tasks (assistant (fst (complete_task wo now i w))))))
   \<and> (find_task i (tasks (assistant w)) = Some n
        \<and> status (tasks (assistant w) ! n) = ''completed'' \<longrightarrow>
        complete_task wo now i w = (w, already_completed_message (tasks (assistant w) ! n))
        \<and> already_completed_message (tasks (assistant w) ! n) \<noteq> completed_message t r)"
proof (intro conjI impI)
  show "\<forall>t\<in>set (tasks (assistant (run cs (empty_world f)))).
      (status t = ''completed'') = (completed_at t \<noteq> None)"
    by (rule coupled_run) (simp add: empty_world_def empty_assistant_def)
next
  assume a: "find_task i (tasks (assistant w)) = Some n
        \<and> status (tasks (assistant w) ! n) = ''pending''"
  then have n: "n < length (tasks (assistant w))" using find_task_Some by blast
  from a show ts: "tasks (assistant (fst (complete_task wo now i w)))
          = (tasks (assistant w))
              [n := (tasks (assistant w) ! n)\<lparr>status := ''completed'', completed_at := Some now\<rparr>]"
    by (simp add: assistant_complete_task)
  from ts n show "status (tasks (assistant (fst (complete_task wo now i w))) ! n) = ''completed''"
    by simp
  from ts n show "completed_at (tasks (assistant (fst (complete_task wo now i w))) ! n) = Some now"
    by simp
  from a n show "snd (complete_task wo now i w)
            = completed_message (tasks (assistant (fst (complete_task wo now i w))) ! n)
                (count_status ''pending'' (tasks (assistant (fst (complete_task wo now i w)))))"
    by (simp add: complete_task_def Let_def)
next
  assume "find_task i (tasks (assistant w)) = Some n
        \<and> status (tasks (assistant w) ! n) = ''completed''"
  then show "complete_task wo now i w = (w, already_completed_message (tasks (assistant w) ! n))"
    by (simp add: complete_task_def)
next
  show "already_completed_message (tasks (assistant w) ! n) \<noteq> completed_message t r"
    by (rule messages_differ)
qed

theorem status_completed_iff_completed_at_witness:
  "find_task 1 (tasks (assistant one_pending)) = Some 0
   \<and> status (tasks (assistant one_pending) ! 0) = ''pending''
   \<and> status (tasks (assistant (fst (complete_task Written ''2025-10-01 09:30'' 1 one_pending))) ! 0)
       = ''completed''
   \<and> completed_at (tasks (assistant (fst (complete_task Written ''2025-10-01 09:30'' 1 one_pending))) ! 0)
       = Some ''2025-10-01 09:30''
   \<and> find_task 1 (tasks (assistant one_completed)) = Some 0
   \<and> status (tasks (assistant one_completed) ! 0) = ''completed''
   \<and> complete_task Written ''2025-10-01 10:00'' 1 one_completed
       = (one_completed, already_completed_message (tasks (assistant one_completed) ! 0))
   \<and> (status (hd (tasks (assistant one_completed))) = ''completed'')
       = (completed_at (hd (tasks (assistant one_completed))) \<noteq> None)"
proof -
  have p: "find_task 1 (tasks (assistant one_pending)) = Some 0
           \<and> status (tasks (assistant one_pending) ! 0) = ''pending''"
    by (simp add: one_pending_eq)
  have c: "find_task 1 (tasks (assistant one_completed)) = Some 0
           \<and> status (tasks (assistant one_completed) ! 0) = ''completed''"
    by (simp add: one_completed_eq)
  have h: "hd (tasks (assistant one_completed)) \<in> set (tasks (assistant one_completed))"
    by (simp add: one_completed_eq)
  have A: "status (tasks (assistant (fst (complete_task Written ''2025-10-01 09:30'' 1 one_pending))) ! 0)
             = ''completed''
           \<and> completed_at (tasks (assistant (fst (complete_task Written ''2025-10-01 09:30'' 1 one_pending))) ! 0)
             = Some ''2025-10-01 09:30''"
    using p status_completed_iff_completed_at
            [of "[]" Missing 1 one_pending 0 Written "''2025-10-01 09:30''"]
    by blast
  have B: "complete_task Written ''2025-10-01 10:00'' 1 one_completed
             = (one_completed, already_completed_message (tasks (assistant one_completed) ! 0))"
    using c status_completed_iff_completed_at
            [of "[]" Missing 1 one_completed 0 Written "''2025-10-01 10:00''"]
    by blast
  have C: "(status (hd (tasks (assistant one_completed))) = ''completed'')
             = (completed_at (hd (tasks (assistant one_completed))) \<noteq> None)"
    using h status_completed_iff_completed_at
            [of "[Add Written ''2025-10-01 09:00'' ''buy milk'' ''high'' None,
                  Complete Written ''2025-10-01 09:30'' 1]" Missing]
    unfolding one_completed_def by blast
  from p c A B C show ?thesis by blast
qed

subsection \<open>Descriptions\<close>

lemma descriptions_call:
  assumes "t \<in> set (tasks (assistant (fst (call c w))))"
  shows "description t \<in> description ` set (tasks (assistant w)) \<union> set (descriptions_added [c])"
  using tasks_after_call [OF assms] by auto

lemma descriptions_added_Cons:
  "set (descriptions_added (c # cs)) = set (descriptions_added [c]) \<union> set (descriptions_added cs)"
  by (cases c) auto

lemma descriptions_run:
  "description ` set (tasks (assistant (run cs w)))
     \<subseteq> description ` set (tasks (assistant w)) \<union> set (descriptions_added cs)"
proof (induction cs arbitrary: w)
  case Nil
  show ?case by simp
next
  case (Cons c cs)
  have "description ` set (tasks (assistant (fst (call c w))))
          \<subseteq> description ` set (tasks (assistant w)) \<union> set (descriptions_added [c])"
    using descriptions_call by blast
  with Cons.IH [of "fst (call c w)"] show ?case
    unfolding descriptions_added_Cons [of c cs] by auto
qed

text \<open>
  Claim C7, as amended. \<open>add_task\<close> stores the description it is given and checks
  nothing, so the empty text is stored like any other. After every sequence of calls
  on an empty assistant, the description of every task is one that a call of
  \<open>add_task\<close> in the sequence was given; so every description is non-empty when no call
  was given the empty text.
\<close>

theorem descriptions_are_those_given:
  "(\<forall>t\<in>set (tasks (assistant (run cs (empty_world f)))).
      description t \<in> set (descriptions_added cs))
   \<and> ([] \<notin> set (descriptions_added cs) \<longrightarrow>
        (\<forall>t\<in>set (tasks (assistant (run cs (empty_world f)))). description t \<noteq> []))
   \<and> description (last (tasks (assistant (fst (add_task wo now d p due w))))) = d"
proof -
  have sub: "\<forall>t\<in>set (tasks (assistant (run cs (empty_world f)))).
      description t \<in> set (descriptions_added cs)"
    using descriptions_run [of cs "empty_world f"]
    by (auto simp: empty_world_def empty_assistant_def)
  then have "[] \<notin> set (descriptions_added cs) \<longrightarrow>
        (\<forall>t\<in>set (tasks (assistant (run cs (empty_world f)))). description t \<noteq> [])"
    by metis
  moreover have "description (last (tasks (assistant (fst (add_task wo now d p due w))))) = d"
    by (simp add: assistant_add_task)
  ultimately show ?thesis using sub by blast
qed

theorem descriptions_are_those_given_witness:
  "map description (tasks (assistant (run demo_calls (empty_world Missing))))
     = [''write report'', ''call home'']
   \<and> descriptions_added demo_calls = [''buy milk'', ''write report'', ''call home'']
   \<and> [] \<notin> set (descriptions_added demo_calls)
   \<and> list_all (\<lambda>t. description t \<noteq> []) (tasks (assistant (run demo_calls (empty_world Missing))))"
proof -
  have t: "map description (tasks (assistant (run demo_calls (empty_world Missing))))
     = [''write report'', ''call home'']"
    by (simp add: demo_calls_def empty_world_def empty_assistant_def assistant_add_task
          assistant_delete_task assistant_complete_task)
  have d: "descriptions_added demo_calls = [''buy milk'', ''write report'', ''call home'']"
    by (simp add: demo_calls_def)
  show ?thesis
    using t d descriptions_are_those_given [of demo_calls Missing]
    by (simp add: list_all_iff)
qed

text \<open>
  Claim C7 as it was stated fails: one call of \<open>add_task\<close> with the empty text on an
  empty assistant leaves a task whose description is empty.
\<close>

theorem add_stores_empty_description:
  "tasks (assistant (run [add_nameless] (empty_world Missing)))
     = [\<lparr>task_id = 1, description = '''', priority = ''medium'', status = ''pending'',
         created_at = ''2025-10-01 09:00'', due_date = None, completed_at = None\<rparr>]"
  by (simp add: add_nameless_def empty_world_def empty_assistant_def assistant_add_task
        lower_def lower_char_def)

subsection \<open>The suggestion\<close>

lemma hd_filter_index:
  "filter P xs \<noteq> [] \<Longrightarrow> \<exists>i<length xs. xs ! i = hd (filter P xs) \<and> (\<forall>j<i. \<not> P (xs ! j))"
proof (induction xs)
  case Nil
  then show ?case by simp
next
  case (Cons x xs)
  show ?case
  proof (cases "P x")
    case True
    then have "(x # xs) ! 0 = hd (filter P (x # xs)) \<and> (\<forall>j<0. \<not> P ((x # xs) ! j))" by simp
    then show ?thesis by blast
  next
    case False
    with Cons.prems have "filter P xs \<noteq> []" by simp
    from Cons.IH [OF this] obtain i where i: "i < length xs" "xs ! i = hd (filter P xs)"
      "\<forall>j<i. \<not> P (xs ! j)" by blast
    have "\<forall>j<Suc i. \<not> P ((x # xs) ! j)"
      using False i(3) by (auto simp: less_Suc_eq_0_disj)
    with i(1,2) False have "Suc i < length (x # xs) \<and> (x # xs) ! Suc i = hd (filter P (x # xs))
        \<and> (\<forall>j<Suc i. \<not> P ((x # xs) ! j))" by simp
    then show ?thesis by blast
  qed
qed

lemma hd_sort_key_first_least:
  fixes k :: "'a \<Rightarrow> 'k::linorder"
  assumes "xs \<noteq> []"
  shows "\<exists>i<length xs. hd (sort_key k xs) = xs ! i
           \<and> (\<forall>j<length xs. k (xs ! i) \<le> k (xs ! j))
           \<and> (\<forall>j<i. k (xs ! i) < k (xs ! j))"
proof -
  from assms have "sort_key k xs \<noteq> []"
    by (metis length_sort length_0_conv)
  then obtain h ys where ys: "sort_key k xs = h # ys"
    by (cases "sort_key k xs") auto
  have "sorted (map k (sort_key k xs))" by (rule sorted_sort_key)
  then have "\<forall>y\<in>set (h # ys). k h \<le> k y"
    unfolding ys by auto
  then have least: "\<forall>y\<in>set xs. k h \<le> k y"
    using set_sort [of k xs] unfolding ys by blast
  have "filter (\<lambda>y. k y = k h) (sort_key k xs) = filter (\<lambda>y. k y = k h) xs"
    by (rule sort_key_stable)
  then have f: "filter (\<lambda>y. k y = k h) xs = h # filter (\<lambda>y. k y = k h) ys"
    unfolding ys by simp
  then have "filter (\<lambda>y. k y = k h) xs \<noteq> []" by simp
  from hd_filter_index [OF this] obtain i where
    i: "i < length xs" "xs ! i = hd (filter (\<lambda>y. k y = k h) xs)" "\<forall>j<i. k (xs ! j) \<noteq> k h"
    by blast
  from i(2) f have ih: "xs ! i = h" by simp
  have a: "\<forall>j<length xs. k (xs ! i) \<le> k (xs ! j)"
    using least ih by simp
  have b: "\<forall>j<i. k (xs ! i) < k (xs ! j)"
  proof (intro allI impI)
    fix j assume "j < i"
    with i(1,3) have "k (xs ! j) \<noteq> k h" "j < length xs" by auto
    with least ih show "k (xs ! i) < k (xs ! j)" by (simp add: order.strict_iff_order)
  qed
  have "hd (sort_key k xs) = xs ! i" using ys ih by simp
  with a b i(1) show ?thesis by blast
qed

lemma sort_key_of_eq:
  "sort_key_of t =
     (if priority t = ''urgent'' then 0
      else if priority t = ''high'' then 1
      else if priority t = ''medium'' then 2
      else if priority t = ''low'' then 3
      else 4,
      case due_date t of None \<Rightarrow> ''9999'' | Some d \<Rightarrow> if d = [] then ''9999'' else d)"
  by (simp add: sort_key_of_def priority_order_def split: option.splits)

lemma next_task_four:
  assumes "status t1 = ''pending''" "status t2 = ''pending''" "status t3 = ''pending''" "status t4 = ''pending''"
   and "priority t1 = ''low''" "priority t2 = ''urgent''" "priority t3 = ''medium''" "priority t4 = ''urgent''"
   and "due_date t1 = None" "due_date t2 = Some ''Oct 5''" "due_date t3 = Some ''today''" "due_date t4 = Some ''Oct 1''"
  shows "next_task \<lparr>tasks = [t1, t2, t3, t4], task_id_counter = c\<rparr> = Some t4"
proof -
  have k: "sort_key_of t1 = (3, ''9999'')" "sort_key_of t2 = (0, ''Oct 5'')"
    "sort_key_of t3 = (2, ''today'')" "sort_key_of t4 = (0, ''Oct 1'')"
    using assms by (simp_all add: sort_key_of_eq)
  have "sort_key sort_key_of [t1, t2, t3, t4] = [t4, t2, t3, t1]"
    by (simp add: k)
  with assms(1-4) show ?thesis
    by (simp add: next_task_def pending_tasks_def sorted_tasks_def)
qed

lemma next_task_first_least:
  assumes "pending_tasks a \<noteq> []"
  shows "\<exists>i<length (pending_tasks a).
            next_task a = Some (pending_tasks a ! i)
          \<and> suggest_next_task a = suggestion_message (pending_tasks a ! i) (pending_tasks a)
          \<and> (\<forall>j<length (pending_tasks a).
                 sort_key_of (pending_tasks a ! i) \<le> sort_key_of (pending_tasks a ! j))
          \<and> (\<forall>j<i. sort_key_of (pending_tasks a ! i) < sort_key_of (pending_tasks a ! j))"
proof -
  from hd_sort_key_first_least [OF assms, of sort_key_of] obtain i where
    i: "i < length (pending_tasks a)"
       "hd (sort_key sort_key_of (pending_tasks a)) = pending_tasks a ! i"
       "\<forall>j<length (pending_tasks a).
          sort_key_of (pending_tasks a ! i) \<le> sort_key_of (pending_tasks a ! j)"
       "\<forall>j<i. sort_key_of (pending_tasks a ! i) < sort_key_of (pending_tasks a ! j)"
    by blast
  from assms i(2) have n: "next_task a = Some (pending_tasks a ! i)"
    by (simp add: next_task_def sorted_tasks_def)
  then have "suggest_next_task a = suggestion_message (pending_tasks a ! i) (pending_tasks a)"
    by (simp add: suggest_next_task_def)
  with n i(1,3,4) show ?thesis by blast
qed

lemma pending_four: "pending_tasks four_pending = tasks four_pending"
  by (simp add: pending_tasks_def four_pending_def pending_task_def)

text \<open>
  Claim C1, as amended. When a task is pending, \<open>suggest_next_task\<close> names the first
  pending task, in the order of the list, whose key is least: no pending task has a
  smaller key, and every pending task before it has a larger one. The key is the pair
  of the rank of the priority (\<open>urgent\<close> 0, \<open>high\<close> 1, \<open>medium\<close> 2, \<open>low\<close> 3, any other
  text 4) and the text of the due date, where a due date that is absent or is the
  empty text counts as \<open>"9999"\<close>; pairs are compared rank first. For four pending tasks
  with the priorities low, urgent, medium, urgent and the due dates none, \<open>"Oct 5"\<close>,
  \<open>"today"\<close>, \<open>"Oct 1"\<close>, the suggestion is the fourth.
\<close>

theorem suggest_next_first_least:
  "(pending_tasks a \<noteq> [] \<longrightarrow>
      (\<exists>i<length (pending_tasks a).
            next_task a = Some (pending_tasks a ! i)
          \<and> suggest_next_task a = suggestion_message (pending_tasks a ! i) (pending_tasks a)
          \<and> (\<forall>j<length (pending_tasks a).
                 sort_key_of (pending_tasks a ! i) \<le> sort_key_of (pending_tasks a ! j))
          \<and> (\<forall>j<i. sort_key_of (pending_tasks a ! i) < sort_key_of (pending_tasks a ! j))))
   \<and> sort_key_of t =
       (if priority t = ''urgent'' then 0
        else if priority t = ''high'' then 1
        else if priority t = ''medium'' then 2
        else if priority t = ''low'' then 3
        else 4,
        case due_date t of None \<Rightarrow> ''9999'' | Some d \<Rightarrow> if d = [] then ''9999'' else d)
   \<and> (status t1 = ''pending'' \<and> status t2 = ''pending'' \<and> status t3 = ''pending''
        \<and> status t4 = ''pending''
        \<and> priority t1 = ''low'' \<and> priority t2 = ''urgent'' \<and> priority t3 = ''medium''
        \<and> priority t4 = ''urgent''
        \<and> due_date t1 = None \<and> due_date t2 = Some ''Oct 5'' \<and> due_date t3 = Some ''today''
        \<and> due_date t4 = Some ''Oct 1'' \<longrightarrow>
        next_task \<lparr>tasks = [t1, t2, t3, t4], task_id_counter = c\<rparr> = Some t4
        \<and> suggest_next_task \<lparr>tasks = [t1, t2, t3, t4], task_id_counter = c\<rparr>
            = suggestion_message t4 [t1, t2, t3, t4])"
proof (intro conjI impI)
  assume "pending_tasks a \<noteq> []"
  then show "\<exists>i<length (pending_tasks a).
            next_task a = Some (pending_tasks a ! i)
          \<and> suggest_next_task a = suggestion_message (pending_tasks a ! i) (pending_tasks a)
          \<and> (\<forall>j<length (pending_tasks a).
                 sort_key_of (pending_tasks a ! i) \<le> sort_key_of (pending_tasks a ! j))
          \<and> (\<forall>j<i. sort_key_of (pending_tasks a ! i) < sort_key_of (pending_tasks a ! j))"
    by (rule next_task_first_least)
next
  show "sort_key_of t =
       (if priority t = ''urgent'' then 0
        else if priority t = ''high'' then 1
        else if priority t = ''medium'' then 2
        else if priority t = ''low'' then 3
        else 4,
        case due_date t of None \<Rightarrow> ''9999'' | Some d \<Rightarrow> if d = [] then ''9999'' else d)"
    by (rule sort_key_of_eq)
next
  assume h: "status t1 = ''pending'' \<and> status t2 = ''pending'' \<and> status t3 = ''pending''
        \<and> status t4 = ''pending''
        \<and> priority t1 = ''low'' \<and> priority t2 = ''urgent'' \<and> priority t3 = ''medium''
        \<and> priority t4 = ''urgent''
        \<and> due_date t1 = None \<and> due_date t2 = Some ''Oct 5'' \<and> due_date t3 = Some ''today''
        \<and> due_date t4 = Some ''Oct 1''"
  then show n: "next_task \<lparr>tasks = [t1, t2, t3, t4], task_id_counter = c\<rparr> = Some t4"
    by (intro next_task_four) simp_all
  from h have "pending_tasks \<lparr>tasks = [t1, t2, t3, t4], task_id_counter = c\<rparr> = [t1, t2, t3, t4]"
    by (simp add: pending_tasks_def)
  with n show "suggest_next_task \<lparr>tasks = [t1, t2, t3, t4], task_id_counter = c\<rparr>
            = suggestion_message t4 [t1, t2, t3, t4]"
    by (simp add: suggest_next_task_def)
qed

theorem suggest_next_first_least_witness:
  "pending_tasks four_pending \<noteq> []
   \<and> next_task four_pending = Some (pending_task 4 ''file taxes'' ''urgent'' (Some ''Oct 1''))
   \<and> suggest_next_task four_pending
       = suggestion_message (pending_task 4 ''file taxes'' ''urgent'' (Some ''Oct 1''))
           (tasks four_pending)
   \<and> sort_key_of (pending_task 4 ''file taxes'' ''urgent'' (Some ''Oct 1'')) = (0, ''Oct 1'')
   \<and> sort_key_of (pending_task 4 ''file taxes'' ''urgent'' (Some ''Oct 1''))
       < sort_key_of (pending_task 2 ''pay rent'' ''urgent'' (Some ''Oct 5''))"
proof -
  have p: "pending_tasks four_pending \<noteq> []"
    by (simp add: pending_four) (simp add: four_pending_def)
  have s: "status (pending_task 1 ''tidy desk'' ''low'' None) = ''pending''
     \<and> status (pending_task 2 ''pay rent'' ''urgent'' (Some ''Oct 5'')) = ''pending''
     \<and> status (pending_task 3 ''buy milk'' ''medium'' (Some ''today'')) = ''pending''
     \<and> status (pending_task 4 ''file taxes'' ''urgent'' (Some ''Oct 1'')) = ''pending''
     \<and> priority (pending_task 1 ''tidy desk'' ''low'' None) = ''low''
     \<and> priority (pending_task 2 ''pay rent'' ''urgent'' (Some ''Oct 5'')) = ''urgent''
     \<and> priority (pending_task 3 ''buy milk'' ''medium'' (Some ''today'')) = ''medium''
     \<and> priority (pending_task 4 ''file taxes'' ''urgent'' (Some ''Oct 1'')) = ''urgent''
     \<and> due_date (pending_task 1 ''tidy desk'' ''low'' None) = None
     \<and> due_date (pending_task 2 ''pay rent'' ''urgent'' (Some ''Oct 5'')) = Some ''Oct 5''
     \<and> due_date (pending_task 3 ''buy milk'' ''medium'' (Some ''today'')) = Some ''today''
     \<and> due_date (pending_task 4 ''file taxes'' ''urgent'' (Some ''Oct 1'')) = Some ''Oct 1''"
    by (simp add: pending_task_def)
  note inst = suggest_next_first_least
    [of four_pending "pending_task 4 ''file taxes'' ''urgent'' (Some ''Oct 1'')"
        "pending_task 1 ''tidy desk'' ''low'' None"
        "pending_task 2 ''pay rent'' ''urgent'' (Some ''Oct 5'')"
        "pending_task 3 ''buy milk'' ''medium'' (Some ''today'')"
        "pending_task 4 ''file taxes'' ''urgent'' (Some ''Oct 1'')" 5]
  from inst s have n: "next_task four_pending = Some (pending_task 4 ''file taxes'' ''urgent'' (Some ''Oct 1''))"
    unfolding four_pending_def by blast
  from inst s have m: "suggest_next_task four_pending
       = suggestion_message (pending_task 4 ''file taxes'' ''urgent'' (Some ''Oct 1''))
           (tasks four_pending)"
    unfolding four_pending_def by simp
  have k4: "sort_key_of (pending_task 4 ''file taxes'' ''urgent'' (Some ''Oct 1'')) = (0, ''Oct 1'')"
    using inst by (simp add: pending_task_def)
  have k2: "sort_key_of (pending_task 2 ''pay rent'' ''urgent'' (Some ''Oct 5'')) = (0, ''Oct 5'')"
    by (simp add: sort_key_of_eq pending_task_def)
  have "sort_key_of (pending_task 4 ''file taxes'' ''urgent'' (Some ''Oct 1''))
       < sort_key_of (pending_task 2 ''pay rent'' ''urgent'' (Some ''Oct 5''))"
    unfolding k4 k2 by simp
  with p n m k4 show ?thesis by blast
qed

text \<open>
  Claim C1 as it was stated fails where a due date is the empty text: the source tests
  the truth of the due date, and the empty text is false like \<open>None\<close>. Of two pending
  tasks of medium priority, the first due \<open>""\<close> and the second due \<open>"2025-10-01"\<close>,
  the second is suggested, while under the key of the specification, which keeps the
  empty text, the first is smaller.
\<close>

theorem empty_due_date_counts_as_absent:
  "pending_tasks empty_due_first
     = [pending_task 1 ''tidy desk'' ''medium'' (Some ''''),
        pending_task 2 ''pay rent'' ''medium'' (Some ''2025-10-01'')]
   \<and> next_task empty_due_first = Some (pending_task 2 ''pay rent'' ''medium'' (Some ''2025-10-01''))
   \<and> spec_sort_key (pending_task 1 ''tidy desk'' ''medium'' (Some ''''))
       < spec_sort_key (pending_task 2 ''pay rent'' ''medium'' (Some ''2025-10-01''))"
proof -
  have k: "sort_key_of (pending_task 1 ''tidy desk'' ''medium'' (Some '''')) = (2, ''9999'')"
     "sort_key_of (pending_task 2 ''pay rent'' ''medium'' (Some ''2025-10-01'')) = (2, ''2025-10-01'')"
    by (simp_all add: sort_key_of_eq pending_task_def)
  have p: "pending_tasks empty_due_first
     = [pending_task 1 ''tidy desk'' ''medium'' (Some ''''),
        pending_task 2 ''pay rent'' ''medium'' (Some ''2025-10-01'')]"
    by (simp add: pending_tasks_def empty_due_first_def) (simp add: pending_task_def)
  have "sort_key sort_key_of [pending_task 1 ''tidy desk'' ''medium'' (Some ''''),
        pending_task 2 ''pay rent'' ''medium'' (Some ''2025-10-01'')]
      = [pending_task 2 ''pay rent'' ''medium'' (Some ''2025-10-01''),
         pending_task 1 ''tidy desk'' ''medium'' (Some '''')]"
    by (simp add: k)
  with p have n: "next_task empty_due_first = Some (pending_task 2 ''pay rent'' ''medium'' (Some ''2025-10-01''))"
    by (simp add: next_task_def sorted_tasks_def)
  have "spec_sort_key (pending_task 1 ''tidy desk'' ''medium'' (Some ''''))
       < spec_sort_key (pending_task 2 ''pay rent'' ''medium'' (Some ''2025-10-01''))"
    by (simp add: spec_sort_key_def pending_task_def)
  with p n show ?thesis by blast
qed


lemma nine_less_letter: "is_letter c \<Longrightarrow> CHR ''9'' < c"
proof -
  assume "is_letter c"
  then have "CHR ''A'' \<le> c \<or> CHR ''a'' \<le> c" by (auto simp: is_letter_def)
  moreover have "CHR ''9'' < CHR ''A''" "CHR ''9'' < CHR ''a''" by (simp_all add: less_char_def)
  ultimately show ?thesis using less_le_trans by blast
qed

lemma sentinel_less_lettered: "is_letter c \<Longrightarrow> ''9999'' < c # cs"
  using nine_less_letter [of c] by simp

lemma next_task_pair:
  assumes "status t = ''pending''" "status u = ''pending''" "sort_key_of u < sort_key_of t"
  shows "next_task \<lparr>tasks = [t, u], task_id_counter = n\<rparr> = Some u"
proof -
  from assms(3) have "\<not> sort_key_of t \<le> sort_key_of u" by simp
  then have "sort_key sort_key_of [t, u] = [u, t]" by simp
  with assms(1,2) show ?thesis
    by (simp add: next_task_def pending_tasks_def sorted_tasks_def)
qed

text \<open>
  Claim C9. Of two pending tasks of equal priority, one without due date and one whose
  due date begins with a letter, \<open>suggest_next_task\<close> names the one without due date,
  even when the other comes first in the list: \<open>"9999"\<close> is smaller than every text
  that begins with a letter, so the sentinel does not put undated tasks behind the
  dated ones. In particular so for the due date \<open>"today"\<close>.
\<close>

theorem undated_before_lettered_date:
  "(status t = ''pending'' \<and> status u = ''pending'' \<and> priority u = priority t
      \<and> due_date t = Some (c # cs) \<and> is_letter c \<and> due_date u = None \<longrightarrow>
      ''9999'' < c # cs
      \<and> sort_key_of u < sort_key_of t
      \<and> next_task \<lparr>tasks = [t, u], task_id_counter = n\<rparr> = Some u
      \<and> suggest_next_task \<lparr>tasks = [t, u], task_id_counter = n\<rparr> = suggestion_message u [t, u])
   \<and> is_letter (CHR ''t'')
   \<and> next_task dated_then_undated = Some (pending_task 2 ''tidy desk'' ''medium'' None)"
proof (intro conjI impI)
  assume h: "status t = ''pending'' \<and> status u = ''pending'' \<and> priority u = priority t
      \<and> due_date t = Some (c # cs) \<and> is_letter c \<and> due_date u = None"
  then show s: "''9999'' < c # cs" using sentinel_less_lettered by blast
  from h s show k: "sort_key_of u < sort_key_of t"
    by (simp add: sort_key_of_def less_prod_def)
  from h k show n: "next_task \<lparr>tasks = [t, u], task_id_counter = n\<rparr> = Some u"
    by (simp add: next_task_pair)
  from h have "pending_tasks \<lparr>tasks = [t, u], task_id_counter = n\<rparr> = [t, u]"
    by (simp add: pending_tasks_def)
  with n show "suggest_next_task \<lparr>tasks = [t, u], task_id_counter = n\<rparr> = suggestion_message u [t, u]"
    by (simp add: suggest_next_task_def)
next
  show l: "is_letter (CHR ''t'')" by (simp add: is_letter_def less_eq_char_def)
  have "''9999'' < ''today''" by simp
  then have "sort_key_of (pending_task 2 ''tidy desk'' ''medium'' None)
        < sort_key_of (pending_task 1 ''buy milk'' ''medium'' (Some ''today''))"
    by (simp add: sort_key_of_def pending_task_def less_prod_def)
  then show "next_task dated_then_undated = Some (pending_task 2 ''tidy desk'' ''medium'' None)"
    unfolding dated_then_undated_def
    by (intro next_task_pair) (simp_all add: pending_task_def)
qed

theorem undated_before_lettered_date_witness:
  "status (pending_task 1 ''buy milk'' ''medium'' (Some ''today'')) = ''pending''
   \<and> status (pending_task 2 ''tidy desk'' ''medium'' None) = ''pending''
   \<and> priority (pending_task 2 ''tidy desk'' ''medium'' None)
       = priority (pending_task 1 ''buy milk'' ''medium'' (Some ''today''))
   \<and> due_date (pending_task 1 ''buy milk'' ''medium'' (Some ''today'')) = Some ''today''
   \<and> is_letter (CHR ''t'')
   \<and> due_date (pending_task 2 ''tidy desk'' ''medium'' None) = None
   \<and> ''9999'' < ''today''
   \<and> next_task dated_then_undated = Some (pending_task 2 ''tidy desk'' ''medium'' None)
   \<and> suggest_next_task dated_then_undated
       = suggestion_message (pending_task 2 ''tidy desk'' ''medium'' None) (tasks dated_then_undated)"
proof -
  have h: "status (pending_task 1 ''buy milk'' ''medium'' (Some ''today'')) = ''pending''
   \<and> status (pending_task 2 ''tidy desk'' ''medium'' None) = ''pending''
   \<and> priority (pending_task 2 ''tidy desk'' ''medium'' None)
       = priority (pending_task 1 ''buy milk'' ''medium'' (Some ''today''))
   \<and> due_date (pending_task 1 ''buy milk'' ''medium'' (Some ''today'')) = Some ''today''
   \<and> is_letter (CHR ''t'')
   \<and> due_date (pending_task 2 ''tidy desk'' ''medium'' None) = None"
    by (simp add: pending_task_def is_letter_def less_eq_char_def)
  note inst = undated_before_lettered_date
    [of "pending_task 1 ''buy milk'' ''medium'' (Some ''today'')"
        "pending_task 2 ''tidy desk'' ''medium'' None" "CHR ''t''" "''oday''" 3]
  from inst h have r: "''9999'' < ''today''
      \<and> next_task dated_then_undated = Some (pending_task 2 ''tidy desk'' ''medium'' None)
      \<and> suggest_next_task dated_then_undated
          = suggestion_message (pending_task 2 ''tidy desk'' ''medium'' None) (tasks dated_then_undated)"
    unfolding dated_then_undated_def by simp
  from h r show ?thesis by blast
qed

subsection \<open>Listing\<close>

lemma lower_words:
  "lower ''pending'' = ''pending''" "lower ''completed'' = ''completed''"
  "lower ''today'' = ''today''" "lower ''high-priority'' = ''high-priority''"
  by (simp_all add: lower_def lower_char_def less_eq_char_def)

lemma matches_words:
  "matches today ''pending'' = (\<lambda>t. status t = ''pending'')"
  "matches today ''completed'' = (\<lambda>t. status t = ''completed'')"
  "matches today ''today'' = (\<lambda>t. due_date t = Some ''today'' \<or> due_date t = Some today)"
  "matches today ''high-priority'' = (\<lambda>t. priority t = ''high'' \<or> priority t = ''urgent'')"
  by (rule ext, simp add: matches_def)+

lemma task_line_text:
  "task_line t =
     (if status t = ''completed'' then [CHR 0xE2, CHR 0x9C, CHR 0x85]
      else [CHR 0xE2, CHR 0xAC, CHR 0x9C])
     @ '' ''
     @ (if priority t = ''low'' then [CHR 0xF0, CHR 0x9F, CHR 0x94, CHR 0xB5]
        else if priority t = ''medium'' then [CHR 0xF0, CHR 0x9F, CHR 0x9F, CHR 0xA1]
        else if priority t = ''high'' then [CHR 0xF0, CHR 0x9F, CHR 0x9F, CHR 0xA0]
        else if priority t = ''urgent'' then [CHR 0xF0, CHR 0x9F, CHR 0x94, CHR 0xB4]
        else [CHR 0xE2, CHR 0x9A, CHR 0xAA])
     @ '' '' @ description t
     @ (case due_date t of None \<Rightarrow> [] | Some d \<Rightarrow> if d = [] then [] else '' (due '' @ d @ '')'')
     @ '' [ID: '' @ str_int (task_id t) @ '']'' @ [CHR 0x0A]"
  by (simp add: task_line_def priority_emoji_def due_suffix_def check_mark_def white_square_def
        blue_circle_def yellow_circle_def orange_circle_def red_circle_def white_circle_def
        newline_def split: option.splits)

text \<open>
  Claim C5. On a list that is not empty, \<open>list_tasks\<close> with the filter \<open>pending\<close>
  shows the tasks whose status is \<open>pending\<close> and no others, in the order of the list;
  with \<open>completed\<close> those whose status is \<open>completed\<close>; with \<open>high-priority\<close> those
  whose priority is \<open>high\<close> or \<open>urgent\<close>; with \<open>today\<close> those whose due date is the
  text \<open>"today"\<close> or the date of the day as \<open>YYYY-MM-DD\<close>, and no other due date
  matches. The listing has one line for each task shown, in that order: the mark of
  the status, the mark of the priority, the description, the due date when it is
  true, and the id. Its last line counts all the tasks of the list, the pending and
  the completed ones among all of them, not among those shown.
\<close>

theorem list_tasks_filters:
  "list_tasks today ''pending'' a =
     (if tasks a = [] then empty_list_message
      else listing ''pending'' (filter (\<lambda>t. status t = ''pending'') (tasks a)) (tasks a))
   \<and> list_tasks today ''completed'' a =
     (if tasks a = [] then empty_list_message
      else listing ''completed'' (filter (\<lambda>t. status t = ''completed'') (tasks a)) (tasks a))
   \<and> list_tasks today ''high-priority'' a =
     (if tasks a = [] then empty_list_message
      else listing ''high-priority''
             (filter (\<lambda>t. priority t = ''high'' \<or> priority t = ''urgent'') (tasks a)) (tasks a))
   \<and> list_tasks today ''today'' a =
     (if tasks a = [] then empty_list_message
      else listing ''today''
             (filter (\<lambda>t. due_date t = Some ''today'' \<or> due_date t = Some today) (tasks a))
             (tasks a))
   \<and> listing f (x # xs) ts =
       ''Here are your '' @ f @ '' tasks:'' @ newline @ newline
       @ concat (map task_line (x # xs))
       @ newline @ bar_chart @ '' Total: '' @ str_int (int (length ts)) @ '' tasks (''
       @ str_int (int (length (filter (\<lambda>t. status t = ''pending'') ts))) @ '' pending, ''
       @ str_int (int (length (filter (\<lambda>t. status t = ''completed'') ts))) @ '' completed)''
   \<and> listing f [] ts = ''No '' @ f @ '' tasks found.''
   \<and> task_line t =
       (if status t = ''completed'' then [CHR 0xE2, CHR 0x9C, CHR 0x85]
        else [CHR 0xE2, CHR 0xAC, CHR 0x9C])
       @ '' ''
       @ (if priority t = ''low'' then [CHR 0xF0, CHR 0x9F, CHR 0x94, CHR 0xB5]
          else if priority t = ''medium'' then [CHR 0xF0, CHR 0x9F, CHR 0x9F, CHR 0xA1]
          else if priority t = ''high'' then [CHR 0xF0, CHR 0x9F, CHR 0x9F, CHR 0xA0]
          else if priority t = ''urgent'' then [CHR 0xF0, CHR 0x9F, CHR 0x94, CHR 0xB4]
          else [CHR 0xE2, CHR 0x9A, CHR 0xAA])
       @ '' '' @ description t
       @ (case due_date t of
            None \<Rightarrow> []
          | Some d \<Rightarrow> if d = [] then [] else '' (due '' @ d @ '')'')
       @ '' [ID: '' @ str_int (task_id t) @ '']'' @ [CHR 0x0A]"
proof (intro conjI)
  show "task_line t =
       (if status t = ''completed'' then [CHR 0xE2, CHR 0x9C, CHR 0x85]
        else [CHR 0xE2, CHR 0xAC, CHR 0x9C])
       @ '' ''
       @ (if priority t = ''low'' then [CHR 0xF0, CHR 0x9F, CHR 0x94, CHR 0xB5]
          else if priority t = ''medium'' then [CHR 0xF0, CHR 0x9F, CHR 0x9F, CHR 0xA1]
          else if priority t = ''high'' then [CHR 0xF0, CHR 0x9F, CHR 0x9F, CHR 0xA0]
          else if priority t = ''urgent'' then [CHR 0xF0, CHR 0x9F, CHR 0x94, CHR 0xB4]
          else [CHR 0xE2, CHR 0x9A, CHR 0xAA])
       @ '' '' @ description t
       @ (case due_date t of
            None \<Rightarrow> []
          | Some d \<Rightarrow> if d = [] then [] else '' (due '' @ d @ '')'')
       @ '' [ID: '' @ str_int (task_id t) @ '']'' @ [CHR 0x0A]"
    by (rule task_line_text)
  show "listing f (x # xs) ts =
       ''Here are your '' @ f @ '' tasks:'' @ newline @ newline
       @ concat (map task_line (x # xs))
       @ newline @ bar_chart @ '' Total: '' @ str_int (int (length ts)) @ '' tasks (''
       @ str_int (int (length (filter (\<lambda>t. status t = ''pending'') ts))) @ '' pending, ''
       @ str_int (int (length (filter (\<lambda>t. status t = ''completed'') ts))) @ '' completed)''"
    by (simp add: listing_def list_footer_def count_status_def)
  show "listing f [] ts = ''No '' @ f @ '' tasks found.''"
    by (simp add: listing_def)
qed (simp_all only: list_tasks_def lower_words matches_words)

theorem list_tasks_filters_witness:
  "list_tasks ''2025-10-02'' ''pending'' mixed_tasks =
       ''Here are your pending tasks:''
       @ [CHR 0x0A, CHR 0x0A, CHR 0xE2, CHR 0xAC, CHR 0x9C] @ '' ''
       @ [CHR 0xF0, CHR 0x9F, CHR 0x94, CHR 0xB5] @ '' tidy desk (due tomorrow) [ID: 1]''
       @ [CHR 0x0A, CHR 0xE2, CHR 0xAC, CHR 0x9C] @ '' ''
       @ [CHR 0xF0, CHR 0x9F, CHR 0x9F, CHR 0xA0] @ '' buy milk (due today) [ID: 3]''
       @ [CHR 0x0A, CHR 0xE2, CHR 0xAC, CHR 0x9C] @ '' ''
       @ [CHR 0xF0, CHR 0x9F, CHR 0x9F, CHR 0xA1]
       @ '' file taxes (due 2025-10-02) [ID: 4]''
       @ [CHR 0x0A, CHR 0x0A, CHR 0xF0, CHR 0x9F, CHR 0x93, CHR 0x8A]
       @ '' Total: 4 tasks (3 pending, 1 completed)''
   \<and> list_tasks ''2025-10-02'' ''completed'' mixed_tasks =
       ''Here are your completed tasks:''
       @ [CHR 0x0A, CHR 0x0A, CHR 0xE2, CHR 0x9C, CHR 0x85] @ '' ''
       @ [CHR 0xF0, CHR 0x9F, CHR 0x94, CHR 0xB4] @ '' pay rent (due 2025-10-02) [ID: 2]''
       @ [CHR 0x0A, CHR 0x0A, CHR 0xF0, CHR 0x9F, CHR 0x93, CHR 0x8A]
       @ '' Total: 4 tasks (3 pending, 1 completed)''
   \<and> list_tasks ''2025-10-02'' ''high-priority'' mixed_tasks =
       ''Here are your high-priority tasks:''
       @ [CHR 0x0A, CHR 0x0A, CHR 0xE2, CHR 0x9C, CHR 0x85] @ '' ''
       @ [CHR 0xF0, CHR 0x9F, CHR 0x94, CHR 0xB4] @ '' pay rent (due 2025-10-02) [ID: 2]''
       @ [CHR 0x0A, CHR 0xE2, CHR 0xAC, CHR 0x9C] @ '' ''
       @ [CHR 0xF0, CHR 0x9F, CHR 0x9F, CHR 0xA0] @ '' buy milk (due today) [ID: 3]''
       @ [CHR 0x0A, CHR 0x0A, CHR 0xF0, CHR 0x9F, CHR 0x93, CHR 0x8A]
       @ '' Total: 4 tasks (3 pending, 1 completed)''
   \<and> list_tasks ''2025-10-02'' ''today'' mixed_tasks =
       ''Here are your today tasks:'' @ [CHR 0x0A, CHR 0x0A, CHR 0xE2, CHR 0x9C, CHR 0x85]
       @ '' '' @ [CHR 0xF0, CHR 0x9F, CHR 0x94, CHR 0xB4]
       @ '' pay rent (due 2025-10-02) [ID: 2]'' @ [CHR 0x0A, CHR 0xE2, CHR 0xAC, CHR 0x9C]
       @ '' '' @ [CHR 0xF0, CHR 0x9F, CHR 0x9F, CHR 0xA0]
       @ '' buy milk (due today) [ID: 3]'' @ [CHR 0x0A, CHR 0xE2, CHR 0xAC, CHR 0x9C]
       @ '' '' @ [CHR 0xF0, CHR 0x9F, CHR 0x9F, CHR 0xA1]
       @ '' file taxes (due 2025-10-02) [ID: 4]''
       @ [CHR 0x0A, CHR 0x0A, CHR 0xF0, CHR 0x9F, CHR 0x93, CHR 0x8A]
       @ '' Total: 4 tasks (3 pending, 1 completed)''"
proof -
  have n: "tasks mixed_tasks \<noteq> []" by (simp add: mixed_tasks_def)
  have l0: "listing ''pending'' (filter (\<lambda>t. status t = ''pending'') (tasks mixed_tasks)) (tasks mixed_tasks) =
       ''Here are your pending tasks:''
       @ [CHR 0x0A, CHR 0x0A, CHR 0xE2, CHR 0xAC, CHR 0x9C] @ '' ''
       @ [CHR 0xF0, CHR 0x9F, CHR 0x94, CHR 0xB5] @ '' tidy desk (due tomorrow) [ID: 1]''
       @ [CHR 0x0A, CHR 0xE2, CHR 0xAC, CHR 0x9C] @ '' ''
       @ [CHR 0xF0, CHR 0x9F, CHR 0x9F, CHR 0xA0] @ '' buy milk (due today) [ID: 3]''
       @ [CHR 0x0A, CHR 0xE2, CHR 0xAC, CHR 0x9C] @ '' ''
       @ [CHR 0xF0, CHR 0x9F, CHR 0x9F, CHR 0xA1]
       @ '' file taxes (due 2025-10-02) [ID: 4]''
       @ [CHR 0x0A, CHR 0x0A, CHR 0xF0, CHR 0x9F, CHR 0x93, CHR 0x8A]
       @ '' Total: 4 tasks (3 pending, 1 completed)''"
    by code_simp
  have l1: "listing ''completed'' (filter (\<lambda>t. status t = ''completed'') (tasks mixed_tasks)) (tasks mixed_tasks) =
       ''Here are your completed tasks:''
       @ [CHR 0x0A, CHR 0x0A, CHR 0xE2, CHR 0x9C, CHR 0x85] @ '' ''
       @ [CHR 0xF0, CHR 0x9F, CHR 0x94, CHR 0xB4] @ '' pay rent (due 2025-10-02) [ID: 2]''
       @ [CHR 0x0A, CHR 0x0A, CHR 0xF0, CHR 0x9F, CHR 0x93, CHR 0x8A]
       @ '' Total: 4 tasks (3 pending, 1 completed)''"
    by code_simp
  have l2: "listing ''high-priority'' (filter (\<lambda>t. priority t = ''high'' \<or> priority t = ''urgent'') (tasks mixed_tasks)) (tasks mixed_tasks) =
       ''Here are your high-priority tasks:''
       @ [CHR 0x0A, CHR 0x0A, CHR 0xE2, CHR 0x9C, CHR 0x85] @ '' ''
       @ [CHR 0xF0, CHR 0x9F, CHR 0x94, CHR 0xB4] @ '' pay rent (due 2025-10-02) [ID: 2]''
       @ [CHR 0x0A, CHR 0xE2, CHR 0xAC, CHR 0x9C] @ '' ''
       @ [CHR 0xF0, CHR 0x9F, CHR 0x9F, CHR 0xA0] @ '' buy milk (due today) [ID: 3]''
       @ [CHR 0x0A, CHR 0x0A, CHR 0xF0, CHR 0x9F, CHR 0x93, CHR 0x8A]
       @ '' Total: 4 tasks (3 pending, 1 completed)''"
    by code_simp
  have l3: "listing ''today'' (filter (\<lambda>t. due_date t = Some ''today'' \<or> due_date t = Some ''2025-10-02'') (tasks mixed_tasks)) (tasks mixed_tasks) =
       ''Here are your today tasks:'' @ [CHR 0x0A, CHR 0x0A, CHR 0xE2, CHR 0x9C, CHR 0x85]
       @ '' '' @ [CHR 0xF0, CHR 0x9F, CHR 0x94, CHR 0xB4]
       @ '' pay rent (due 2025-10-02) [ID: 2]'' @ [CHR 0x0A, CHR 0xE2, CHR 0xAC, CHR 0x9C]
       @ '' '' @ [CHR 0xF0, CHR 0x9F, CHR 0x9F, CHR 0xA0]
       @ '' buy milk (due today) [ID: 3]'' @ [CHR 0x0A, CHR 0xE2, CHR 0xAC, CHR 0x9C]
       @ '' '' @ [CHR 0xF0, CHR 0x9F, CHR 0x9F, CHR 0xA1]
       @ '' file taxes (due 2025-10-02) [ID: 4]''
       @ [CHR 0x0A, CHR 0x0A, CHR 0xF0, CHR 0x9F, CHR 0x93, CHR 0x8A]
       @ '' Total: 4 tasks (3 pending, 1 completed)''"
    by code_simp
  note inst = list_tasks_filters [of "''2025-10-02''" mixed_tasks]
  from inst n l0 l1 l2 l3 show ?thesis by simp
qed

subsection \<open>Loading and saving\<close>

lemma task_of_json_of_task: "task_of_json (json_of_task t) = Some t"
  by (simp add: json_of_task_def task_of_items_def json_of_optional_def split: option.splits)

lemma tasks_of_list_map: "tasks_of_list (map json_of_task ts) = Some ts"
  by (induction ts) (simp_all add: task_of_json_of_task)

lemma load_without_next_id:
  assumes "map_of items ''next_id'' = None" "map_of items ''tasks'' = Some (JList js)"
    "tasks_of_list js = Some ts"
  shows "load_tasks (w\<lparr>disk := Parsed (JObj items)\<rparr>)
    = Some (w\<lparr>assistant := \<lparr>tasks = ts, task_id_counter = 1\<rparr>, disk := Parsed (JObj items)\<rparr>)"
  using assms by (simp add: load_tasks_def dict_get_def)

text \<open>
  Claim C6. Making an assistant when the file is missing leaves the list empty and the
  counter at 1. So it does when the file cannot be opened or parsed, and when what is
  parsed is not a dict, so that \<open>data.get\<close> raises: the exception is caught, its text
  is printed, and nothing else happens. In every case the assistant is made.
\<close>

theorem load_failure_starts_empty:
  "init (w\<lparr>disk := Missing\<rparr>) = Some (w\<lparr>assistant := empty_assistant, disk := Missing\<rparr>)
   \<and> init (w\<lparr>disk := Unreadable e\<rparr>)
       = Some (print (''Could not load tasks: '' @ e)
                 (w\<lparr>assistant := empty_assistant, disk := Unreadable e\<rparr>))
   \<and> ((\<forall>items. data \<noteq> JObj items) \<longrightarrow>
        init (w\<lparr>disk := Parsed data\<rparr>)
          = Some (print (''Could not load tasks: '' @ quoted (type_name data)
                         @ '' object has no attribute '' @ quoted ''get'')
                    (w\<lparr>assistant := empty_assistant, disk := Parsed data\<rparr>)))
   \<and> assistant (print line (w\<lparr>assistant := empty_assistant, disk := d\<rparr>))
       = \<lparr>tasks = [], task_id_counter = 1\<rparr>
   \<and> assistant (w\<lparr>assistant := empty_assistant, disk := d\<rparr>) = \<lparr>tasks = [], task_id_counter = 1\<rparr>"
proof (intro conjI impI)
  assume "\<forall>items. data \<noteq> JObj items"
  then show "init (w\<lparr>disk := Parsed data\<rparr>)
          = Some (print (''Could not load tasks: '' @ quoted (type_name data)
                         @ '' object has no attribute '' @ quoted ''get'')
                    (w\<lparr>assistant := empty_assistant, disk := Parsed data\<rparr>))"
    by (cases w; cases data) (simp_all add: init_def load_tasks_def print_def)
qed (cases w, simp add: init_def load_tasks_def print_def empty_assistant_def)+

theorem load_failure_starts_empty_witness:
  "map_option assistant (init (empty_world (Parsed (JList []))))
     = Some \<lparr>tasks = [], task_id_counter = 1\<rparr>
   \<and> map_option console (init (empty_world (Parsed (JList []))))
     = Some [''Could not load tasks: '' @ quoted ''list'' @ '' object has no attribute ''
             @ quoted ''get'']
   \<and> map_option assistant (init (empty_world Missing)) = Some \<lparr>tasks = [], task_id_counter = 1\<rparr>
   \<and> map_option assistant (init (empty_world (Unreadable ''Expecting value: line 1 column 1 (char 0)'')))
     = Some \<lparr>tasks = [], task_id_counter = 1\<rparr>"
proof -
  have n: "\<forall>items. JList [] \<noteq> JObj items" by simp
  have e: "empty_world f = (empty_world f)\<lparr>disk := f\<rparr>" for f
    by (simp add: empty_world_def)
  note inst = load_failure_starts_empty [of "empty_world (Parsed (JList []))" _ "JList []"]
  from inst n have "init ((empty_world (Parsed (JList [])))\<lparr>disk := Parsed (JList [])\<rparr>)
     = Some (print (''Could not load tasks: '' @ quoted (type_name (JList []))
                         @ '' object has no attribute '' @ quoted ''get'')
                    ((empty_world (Parsed (JList [])))\<lparr>assistant := empty_assistant, disk := Parsed (JList [])\<rparr>))"
    by blast
  then have "init (empty_world (Parsed (JList [])))
     = Some (print (''Could not load tasks: '' @ quoted ''list''
                         @ '' object has no attribute '' @ quoted ''get'')
                    (empty_world (Parsed (JList []))))"
    by (simp add: empty_world_def)
  then have a: "map_option assistant (init (empty_world (Parsed (JList []))))
     = Some \<lparr>tasks = [], task_id_counter = 1\<rparr>
   \<and> map_option console (init (empty_world (Parsed (JList []))))
     = Some [''Could not load tasks: '' @ quoted ''list'' @ '' object has no attribute ''
             @ quoted ''get'']"
    by (simp add: print_def empty_world_def empty_assistant_def)
  have b: "map_option assistant (init (empty_world Missing)) = Some \<lparr>tasks = [], task_id_counter = 1\<rparr>"
    by (simp add: init_def load_tasks_def empty_world_def empty_assistant_def)
  have c: "map_option assistant (init (empty_world (Unreadable ''Expecting value: line 1 column 1 (char 0)'')))
     = Some \<lparr>tasks = [], task_id_counter = 1\<rparr>"
    by (simp add: init_def load_tasks_def empty_world_def empty_assistant_def print_def)
  from a b c show ?thesis by blast
qed

lemma json_of_task_eq_iff: "(json_of_task t = json_of_task u) = (t = u)"
  by (auto simp: json_of_task_def json_of_optional_def split: option.splits)

text \<open>
  Claim C8. When \<open>save_tasks\<close> has written the file, a new assistant made on that file
  has the same tasks in the same order and the same counter as the assistant that
  saved, whatever the new assistant's world held before (\<open>__init__\<close> replaces its
  list and counter, then loads). What is written is the list of the tasks as dicts,
  in the order of the list, and the counter; two tasks are written alike only when
  they are equal. (The file is held as the value that \<open>json.dump\<close> writes and
  \<open>json.load\<close> reads: that \<open>json.load\<close> returns the dicts, lists, texts, integers and
  \<open>None\<close> that \<open>json.dump\<close> wrote is taken from the library. The outcome of the write
  is an argument of \<open>save_tasks\<close>; the claim is about the outcome \<open>Written\<close>.)
\<close>

theorem save_then_load_is_identity:
  "init (w'\<lparr>disk := disk (save_tasks Written w)\<rparr>)
     = Some (w'\<lparr>assistant := assistant w, disk := disk (save_tasks Written w)\<rparr>)
   \<and> map_option (\<lambda>v. tasks (assistant v)) (init (w'\<lparr>disk := disk (save_tasks Written w)\<rparr>))
       = Some (tasks (assistant w))
   \<and> map_option (\<lambda>v. task_id_counter (assistant v))
         (init (w'\<lparr>disk := disk (save_tasks Written w)\<rparr>))
       = Some (task_id_counter (assistant w))
   \<and> assistant (save_tasks Written w) = assistant w
   \<and> disk (save_tasks Written w)
       = Parsed (JObj [(''tasks'', JList (map json_of_task (tasks (assistant w)))),
                       (''next_id'', JInt (task_id_counter (assistant w)))])
   \<and> (json_of_task t = json_of_task u) = (t = u)"
proof -
  have d: "disk (save_tasks Written w)
       = Parsed (JObj [(''tasks'', JList (map json_of_task (tasks (assistant w)))),
                       (''next_id'', JInt (task_id_counter (assistant w)))])"
    by (simp add: save_tasks_def json_of_assistant_def)
  have i: "init (w'\<lparr>disk := disk (save_tasks Written w)\<rparr>)
     = Some (w'\<lparr>assistant := assistant w, disk := disk (save_tasks Written w)\<rparr>)"
    unfolding d
    by (cases w'; cases w)
       (simp add: init_def load_tasks_def dict_get_def tasks_of_list_map)
  from i have "map_option (\<lambda>v. tasks (assistant v)) (init (w'\<lparr>disk := disk (save_tasks Written w)\<rparr>))
       = Some (tasks (assistant w))"
    and "map_option (\<lambda>v. task_id_counter (assistant v))
         (init (w'\<lparr>disk := disk (save_tasks Written w)\<rparr>))
       = Some (task_id_counter (assistant w))"
    by simp_all
  with i d json_of_task_eq_iff [of t u] show ?thesis by simp
qed

theorem save_then_load_is_identity_witness:
  "map_option assistant
     (init ((empty_world (Unreadable ''stale''))\<lparr>disk := disk (save_tasks Written one_completed)\<rparr>))
     = Some \<lparr>tasks = [\<lparr>task_id = 1, description = ''buy milk'', priority = ''high'',
               status = ''completed'', created_at = ''2025-10-01 09:00'', due_date = None,
               completed_at = Some ''2025-10-01 09:30''\<rparr>], task_id_counter = 2\<rparr>
   \<and> assistant (empty_world (Unreadable ''stale'')) = \<lparr>tasks = [], task_id_counter = 1\<rparr>"
proof -
  note inst = save_then_load_is_identity
    [where w = one_completed and w' = "empty_world (Unreadable ''stale'')", THEN conjunct1]
  have "map_option assistant
     (init ((empty_world (Unreadable ''stale''))\<lparr>disk := disk (save_tasks Written one_completed)\<rparr>))
     = Some (assistant one_completed)"
    unfolding inst by simp
  then show ?thesis
    by (simp add: one_completed_eq empty_world_def empty_assistant_def)
qed

text \<open>
  Claim C10. When the file parses as a dict that has a list of tasks under \<open>tasks\<close> and
  no key \<open>next_id\<close>, the new assistant has the tasks of the file and the counter 1.
  A following \<open>add_task\<close> gives the id 1, whatever the ids of the loaded tasks; with
  a file whose one task has the id 1, the list then holds the id 1 twice.
\<close>

theorem missing_next_id_restarts_counter:
  "(map_of items ''next_id'' = None \<and> map_of items ''tasks'' = Some (JList js)
      \<and> tasks_of_list js = Some ts \<longrightarrow>
      init (w\<lparr>disk := Parsed (JObj items)\<rparr>)
        = Some (w\<lparr>assistant := \<lparr>tasks = ts, task_id_counter = 1\<rparr>, disk := Parsed (JObj items)\<rparr>)
      \<and> map task_id
           (tasks (assistant (fst (add_task wo now d p due
              (w\<lparr>assistant := \<lparr>tasks = ts, task_id_counter = 1\<rparr>, disk := Parsed (JObj items)\<rparr>)))))
          = map task_id ts @ [1])
   \<and> map_option (\<lambda>w'. map task_id (tasks (assistant
          (fst (add_task Written ''2025-10-02 08:00'' ''write report'' ''medium'' None w')))))
        (init (empty_world file_without_next_id))
       = Some [1, 1]"
proof (intro conjI impI)
  assume h: "map_of items ''next_id'' = None \<and> map_of items ''tasks'' = Some (JList js)
      \<and> tasks_of_list js = Some ts"
  then show "init (w\<lparr>disk := Parsed (JObj items)\<rparr>)
        = Some (w\<lparr>assistant := \<lparr>tasks = ts, task_id_counter = 1\<rparr>, disk := Parsed (JObj items)\<rparr>)"
    using load_without_next_id [of items js ts "w\<lparr>assistant := empty_assistant\<rparr>"]
    by (cases w) (simp add: init_def)
  show "map task_id
           (tasks (assistant (fst (add_task wo now d p due
              (w\<lparr>assistant := \<lparr>tasks = ts, task_id_counter = 1\<rparr>, disk := Parsed (JObj items)\<rparr>)))))
          = map task_id ts @ [1]"
    by (simp add: assistant_add_task)
next
  have "init (empty_world file_without_next_id)
     = Some ((empty_world file_without_next_id)
          \<lparr>assistant := \<lparr>tasks = [pending_task 1 ''buy milk'' ''high'' None], task_id_counter = 1\<rparr>\<rparr>)"
    by (simp add: init_def load_tasks_def empty_world_def file_without_next_id_def dict_get_def
          task_of_json_of_task)
  then show "map_option (\<lambda>w'. map task_id (tasks (assistant
          (fst (add_task Written ''2025-10-02 08:00'' ''write report'' ''medium'' None w')))))
        (init (empty_world file_without_next_id))
       = Some [1, 1]"
    by (simp add: assistant_add_task pending_task_def)
qed

theorem missing_next_id_restarts_counter_witness:
  "map_of [(''tasks'', JList [json_of_task (pending_task 1 ''buy milk'' ''high'' None)])] ''next_id''
     = None
   \<and> map_of [(''tasks'', JList [json_of_task (pending_task 1 ''buy milk'' ''high'' None)])] ''tasks''
     = Some (JList [json_of_task (pending_task 1 ''buy milk'' ''high'' None)])
   \<and> tasks_of_list [json_of_task (pending_task 1 ''buy milk'' ''high'' None)]
     = Some [pending_task 1 ''buy milk'' ''high'' None]
   \<and> map_option assistant (init (empty_world file_without_next_id))
     = Some \<lparr>tasks = [pending_task 1 ''buy milk'' ''high'' None], task_id_counter = 1\<rparr>
   \<and> map task_id
        (tasks (assistant (fst (add_task Written ''2025-10-02 08:00'' ''write report'' ''medium'' None
           ((empty_world file_without_next_id)
              \<lparr>assistant := \<lparr>tasks = [pending_task 1 ''buy milk'' ''high'' None],
                              task_id_counter = 1\<rparr>\<rparr>)))))
     = [1, 1]"
proof -
  have h: "map_of [(''tasks'', JList [json_of_task (pending_task 1 ''buy milk'' ''high'' None)])] ''next_id''
     = None
   \<and> map_of [(''tasks'', JList [json_of_task (pending_task 1 ''buy milk'' ''high'' None)])] ''tasks''
     = Some (JList [json_of_task (pending_task 1 ''buy milk'' ''high'' None)])
   \<and> tasks_of_list [json_of_task (pending_task 1 ''buy milk'' ''high'' None)]
     = Some [pending_task 1 ''buy milk'' ''high'' None]"
    by (simp add: task_of_json_of_task)
  note inst = missing_next_id_restarts_counter
    [of "[(''tasks'', JList [json_of_task (pending_task 1 ''buy milk'' ''high'' None)])]"
        "[json_of_task (pending_task 1 ''buy milk'' ''high'' None)]"
        "[pending_task 1 ''buy milk'' ''high'' None]"
        "empty_world file_without_next_id"
        Written "''2025-10-02 08:00''" "''write report''" "''medium''" None]
  from inst h have r:
    "init ((empty_world file_without_next_id)
        \<lparr>disk := Parsed (JObj [(''tasks'', JList [json_of_task (pending_task 1 ''buy milk'' ''high'' None)])])\<rparr>)
      = Some ((empty_world file_without_next_id)
          \<lparr>assistant := \<lparr>tasks = [pending_task 1 ''buy milk'' ''high'' None], task_id_counter = 1\<rparr>,
            disk := Parsed (JObj [(''tasks'', JList [json_of_task (pending_task 1 ''buy milk'' ''high'' None)])])\<rparr>)"
    and a: "map task_id
        (tasks (assistant (fst (add_task Written ''2025-10-02 08:00'' ''write report'' ''medium'' None
           ((empty_world file_without_next_id)
              \<lparr>assistant := \<lparr>tasks = [pending_task 1 ''buy milk'' ''high'' None], task_id_counter = 1\<rparr>,
                disk := Parsed (JObj [(''tasks'', JList [json_of_task (pending_task 1 ''buy milk'' ''high'' None)])])\<rparr>)))))
       = map task_id [pending_task 1 ''buy milk'' ''high'' None] @ [1]"
    by blast+
  have e: "(empty_world file_without_next_id)
        \<lparr>disk := Parsed (JObj [(''tasks'', JList [json_of_task (pending_task 1 ''buy milk'' ''high'' None)])])\<rparr>
      = empty_world file_without_next_id"
    by (simp add: empty_world_def file_without_next_id_def)
  from r have i: "map_option assistant (init (empty_world file_without_next_id))
     = Some \<lparr>tasks = [pending_task 1 ''buy milk'' ''high'' None], task_id_counter = 1\<rparr>"
    unfolding e by simp
  have "map task_id
        (tasks (assistant (fst (add_task Written ''2025-10-02 08:00'' ''write report'' ''medium'' None
           ((empty_world file_without_next_id)
              \<lparr>assistant := \<lparr>tasks = [pending_task 1 ''buy milk'' ''high'' None],
                              task_id_counter = 1\<rparr>\<rparr>)))))
     = [1, 1]"
    by (simp add: assistant_add_task pending_task_def)
  with h i show ?thesis by blast
qed


subsection \<open>Rounding to binary64\<close>

lemma bit_length_pos: "0 < n \<Longrightarrow> 0 < bit_length n"
  by (subst bit_length.simps) simp

lemma bit_length_Suc_0: "bit_length (Suc 0) = Suc 0"
  by (simp add: bit_length.simps [of "Suc 0"] bit_length.simps [of 0])

lemma bit_length_bounds:
  "0 < n \<Longrightarrow> 2 ^ (bit_length n - 1) \<le> n \<and> n < 2 ^ bit_length n"
proof (induction n rule: bit_length.induct)
  case (1 n)
  show ?case
  proof (cases "n div 2 = 0")
    case True
    with "1.prems" have "n = 1" by (simp add: div_eq_0_iff) 
    then show ?thesis by (simp add: bit_length_Suc_0)
  next
    case False
    then have p: "0 < n div 2" by simp
    from "1.IH" [OF _ p] "1.prems"
    have ih: "2 ^ (bit_length (n div 2) - 1) \<le> n div 2" "n div 2 < 2 ^ bit_length (n div 2)"
      by simp_all
    from bit_length_pos [OF p] obtain b where b: "bit_length (n div 2) = Suc b"
      by (cases "bit_length (n div 2)") auto
    have bl: "bit_length n = Suc (Suc b)"
      using "1.prems" b by (subst bit_length.simps) simp
    from ih b have "2 * 2 ^ b \<le> 2 * (n div 2)" "n div 2 + 1 \<le> 2 * 2 ^ b" by simp_all
    then have "2 ^ Suc b \<le> n" "n < 2 ^ Suc (Suc b)" by (simp_all; linarith)+
    with bl show ?thesis by simp
  qed
qed

lemma pow2_powi: "pow2 k = 2 powi k"
  by (simp add: pow2_def power_int_def field_simps)

lemma pow2_pos [simp]: "0 < pow2 k"
  by (simp add: pow2_powi)

lemma pow2_add: "pow2 (a + b) = pow2 a * pow2 b"
  by (simp add: pow2_powi power_int_add)

lemma pow2_mono: "a \<le> b \<Longrightarrow> pow2 a \<le> pow2 b"
  by (simp add: pow2_powi power_int_increasing)

lemma pow2_nat: "pow2 (int n) = 2 ^ n"
  by (simp add: pow2_def)

lemma pow2_neg: "pow2 (- int n) = 1 / 2 ^ n"
  by (simp add: pow2_powi power_int_minus_divide)

lemma ilog2_bounds:
  assumes "0 < x"
  shows "pow2 (ilog2 x) \<le> x \<and> x < pow2 (ilog2 x + 1)"
proof (cases "1 \<le> x")
  case True
  define n where "n = nat \<lfloor>x\<rfloor>"
  from True have n: "0 < n" "rat_of_nat n \<le> x" "x < rat_of_nat n + 1"
    unfolding n_def by (simp_all add: floor_less_iff) linarith+
  from bit_length_pos [OF n(1)] obtain b where b: "bit_length n = Suc b"
    by (cases "bit_length n") auto
  from bit_length_bounds [OF n(1)] b have "2 ^ b \<le> n" "n + 1 \<le> 2 ^ Suc b" by simp_all
  then have "rat_of_nat (2 ^ b) \<le> rat_of_nat n" "rat_of_nat (n + 1) \<le> rat_of_nat (2 ^ Suc b)"
    by (simp_all only: of_nat_le_iff)
  then have "(2::rat) ^ b \<le> rat_of_nat n" "rat_of_nat n + 1 \<le> 2 ^ Suc b"
    by simp_all
  with n have "(2::rat) ^ b \<le> x" "x < 2 ^ Suc b" by linarith+
  moreover have "ilog2 x = int b" using True b by (simp add: ilog2_def n_def)
  moreover have "int b + 1 = int (Suc b)" by simp
  ultimately show ?thesis by (simp only: pow2_nat)
next
  case False
  define y where "y = 1 / x"
  define c where "c = \<lceil>y\<rceil>"
  define n where "n = nat (c - 1)"
  from assms False have y: "1 < y" by (simp add: y_def)
  then have c: "2 \<le> c" unfolding c_def by (simp add: le_ceiling_iff) 
  have cy: "y \<le> of_int c" "of_int c - 1 < y" unfolding c_def by linarith+
  from c have n: "0 < n" "int n = c - 1" by (simp_all add: n_def)
  from bit_length_pos [OF n(1)] obtain b where b: "bit_length n = Suc b"
    by (cases "bit_length n") auto
  from bit_length_bounds [OF n(1)] b have "2 ^ b \<le> n" "n + 1 \<le> 2 ^ Suc b" by simp_all
  then have "rat_of_nat (2 ^ b) \<le> rat_of_nat n" "rat_of_nat (n + 1) \<le> rat_of_nat (2 ^ Suc b)"
    by (simp_all only: of_nat_le_iff)
  then have "(2::rat) ^ b \<le> rat_of_nat n" "rat_of_nat n + 1 \<le> 2 ^ Suc b"
    by simp_all
  moreover have "rat_of_nat n = of_int c - 1" using n(2) by (metis of_int_of_nat_eq of_int_diff of_int_1)
  ultimately have "(2::rat) ^ b < y" "y \<le> 2 ^ Suc b" using cy by linarith+
  then have "x < 1 / 2 ^ b" "1 / 2 ^ Suc b \<le> x"
    using assms by (simp_all add: y_def field_simps)
  moreover have "ilog2 x = - int (Suc b)" using False b by (simp add: ilog2_def n_def c_def y_def)
  moreover have "- int (Suc b) + 1 = - int b" by simp
  ultimately show ?thesis by (simp only: pow2_neg)
qed

lemma round_half_even_error: "\<bar>of_int (round_half_even x) - x\<bar> \<le> 1 / 2"
proof -
  have "of_int \<lfloor>x\<rfloor> \<le> x" "x < of_int \<lfloor>x\<rfloor> + 1" by linarith+
  then show ?thesis
    by (auto simp: round_half_even_def Let_def)
qed

lemma round_half_even_of_int [simp]: "round_half_even (of_int n) = n"
  by (simp add: round_half_even_def)

lemma round_half_even_mono:
  assumes "x \<le> y"
  shows "round_half_even x \<le> round_half_even y"
proof (cases "x = y")
  case True
  then show ?thesis by simp
next
  case False
  with assms have "x < y" by simp
  moreover from round_half_even_error [of x] have "rat_of_int (round_half_even x) \<le> x + 1 / 2"
    by linarith
  moreover from round_half_even_error [of y] have "y - 1 / 2 \<le> rat_of_int (round_half_even y)"
    by linarith
  ultimately have "rat_of_int (round_half_even x) < rat_of_int (round_half_even y) + 1"
    by linarith
  then have "rat_of_int (round_half_even x) < rat_of_int (round_half_even y + 1)" by simp
  then have "round_half_even x < round_half_even y + 1" by (simp only: of_int_less_iff)
  then show ?thesis by simp
qed

lemma scaled_bounds:
  assumes "0 < x"
  shows "2 ^ 52 \<le> x * pow2 (52 - ilog2 x)" "x * pow2 (52 - ilog2 x) < 2 ^ 53"
proof -
  from ilog2_bounds [OF assms] have b: "pow2 (ilog2 x) \<le> x" "x < pow2 (ilog2 x + 1)" by simp_all
  have "pow2 (ilog2 x) * pow2 (52 - ilog2 x) = pow2 52"
    by (simp add: pow2_add [symmetric])
  moreover have "pow2 52 = 2 ^ 52" by (simp add: pow2_def)
  ultimately have "2 ^ 52 = pow2 (ilog2 x) * pow2 (52 - ilog2 x)" by simp
  also from b(1) have "\<dots> \<le> x * pow2 (52 - ilog2 x)"
    by (simp add: mult_right_mono)
  finally show "2 ^ 52 \<le> x * pow2 (52 - ilog2 x)" .
  have "pow2 (ilog2 x + 1) * pow2 (52 - ilog2 x) = pow2 53"
    by (simp add: pow2_add [symmetric])
  moreover have "pow2 53 = 2 ^ 53" by (simp add: pow2_def)
  moreover from b(2) have "x * pow2 (52 - ilog2 x) < pow2 (ilog2 x + 1) * pow2 (52 - ilog2 x)"
    by (simp add: mult_strict_right_mono)
  ultimately show "x * pow2 (52 - ilog2 x) < 2 ^ 53" by simp
qed

lemma pow2_nonzero [simp]: "pow2 k \<noteq> 0"
  by (simp add: pow2_powi)

lemma pow2_nonneg [simp]: "0 \<le> pow2 k"
  using pow2_pos [of k] by (rule less_imp_le)

lemma binary64_pos:
  "0 < x \<Longrightarrow> binary64 x = of_int (round_half_even (x * pow2 (52 - ilog2 x))) / pow2 (52 - ilog2 x)"
  by (simp add: binary64_def Let_def)

lemma mantissa_bounds:
  assumes "0 < x"
  shows "2 ^ 52 \<le> round_half_even (x * pow2 (52 - ilog2 x))"
    "round_half_even (x * pow2 (52 - ilog2 x)) \<le> 2 ^ 53"
proof -
  from scaled_bounds [OF assms]
  have "rat_of_int (2 ^ 52) \<le> x * pow2 (52 - ilog2 x)" "x * pow2 (52 - ilog2 x) \<le> rat_of_int (2 ^ 53)"
    by simp_all
  from round_half_even_mono [OF this(1)] round_half_even_mono [OF this(2)]
  show "2 ^ 52 \<le> round_half_even (x * pow2 (52 - ilog2 x))"
    "round_half_even (x * pow2 (52 - ilog2 x)) \<le> 2 ^ 53"
    by (simp_all only: round_half_even_of_int)
qed

lemma binary64_in_binade:
  assumes "0 < x"
  shows "pow2 (ilog2 x) \<le> binary64 x" "binary64 x \<le> pow2 (ilog2 x + 1)"
proof -
  let ?k = "52 - ilog2 x"
  let ?m = "round_half_even (x * pow2 ?k)"
  from mantissa_bounds [OF assms] have "rat_of_int (2 ^ 52) \<le> rat_of_int ?m" "rat_of_int ?m \<le> rat_of_int (2 ^ 53)"
    by (simp_all only: of_int_le_iff)
  then have m: "2 ^ 52 \<le> rat_of_int ?m" "rat_of_int ?m \<le> 2 ^ 53" by simp_all
  have "pow2 (ilog2 x) * pow2 ?k = pow2 52" "pow2 (ilog2 x + 1) * pow2 ?k = pow2 53"
    by (simp_all add: pow2_add [symmetric])
  moreover have "pow2 52 = 2 ^ 52" "pow2 53 = 2 ^ 53" by (simp_all add: pow2_def)
  ultimately have e: "pow2 (ilog2 x) * pow2 ?k = 2 ^ 52" "pow2 (ilog2 x + 1) * pow2 ?k = 2 ^ 53"
    by simp_all
  have p: "0 < pow2 ?k" by simp
  from m(1) e(1) have "pow2 (ilog2 x) * pow2 ?k \<le> rat_of_int ?m" by simp
  with p have "pow2 (ilog2 x) \<le> rat_of_int ?m / pow2 ?k" by (simp add: pos_le_divide_eq)
  then show "pow2 (ilog2 x) \<le> binary64 x" by (simp add: binary64_pos [OF assms])
  from m(2) e(2) have "rat_of_int ?m \<le> pow2 (ilog2 x + 1) * pow2 ?k" by simp
  with p have "rat_of_int ?m / pow2 ?k \<le> pow2 (ilog2 x + 1)" by (simp add: pos_divide_le_eq)
  then show "binary64 x \<le> pow2 (ilog2 x + 1)" by (simp add: binary64_pos [OF assms])
qed

lemma pow2_less_imp_less:
  assumes "pow2 a < pow2 b" shows "a < b"
proof (rule ccontr)
  assume "\<not> a < b"
  then have "b \<le> a" by simp
  from pow2_mono [OF this] assms show False by simp
qed

lemma ilog2_mono:
  assumes "0 < x" "x \<le> y"
  shows "ilog2 x \<le> ilog2 y"
proof -
  from assms have y: "0 < y" by simp
  from ilog2_bounds [OF assms(1)] ilog2_bounds [OF y] assms(2)
  have "pow2 (ilog2 x) < pow2 (ilog2 y + 1)" by linarith
  from pow2_less_imp_less [OF this] show ?thesis by simp
qed

lemma binary64_mono:
  assumes "0 < x" "x \<le> y"
  shows "binary64 x \<le> binary64 y"
proof (cases "ilog2 x = ilog2 y")
  case True
  from assms have y: "0 < y" by simp
  have "x * pow2 (52 - ilog2 y) \<le> y * pow2 (52 - ilog2 y)"
    using assms(2) by (simp add: mult_right_mono)
  from round_half_even_mono [OF this]
  have h: "rat_of_int (round_half_even (x * pow2 (52 - ilog2 y)))
        \<le> rat_of_int (round_half_even (y * pow2 (52 - ilog2 y)))"
    by (simp only: of_int_le_iff)
  have "rat_of_int (round_half_even (x * pow2 (52 - ilog2 y))) / pow2 (52 - ilog2 y)
        \<le> rat_of_int (round_half_even (y * pow2 (52 - ilog2 y))) / pow2 (52 - ilog2 y)"
    by (rule divide_right_mono [OF h]) simp
  then show ?thesis by (simp add: binary64_pos [OF assms(1)] binary64_pos [OF y] True)
next
  case False
  from assms have y: "0 < y" by simp
  from False ilog2_mono [OF assms] have "ilog2 x + 1 \<le> ilog2 y" by simp
  from pow2_mono [OF this] binary64_in_binade(2) [OF assms(1)] binary64_in_binade(1) [OF y]
  show ?thesis by linarith
qed

lemma abs_diff_divide:
  fixes m x p :: rat
  assumes "0 < p"
  shows "\<bar>m - x * p\<bar> / p = \<bar>m / p - x\<bar>"
proof -
  from assms have "m / p - x = (m - x * p) / p" by (simp add: field_simps)
  then have "\<bar>m / p - x\<bar> = \<bar>m - x * p\<bar> / \<bar>p\<bar>" by (simp only: abs_divide)
  with assms show ?thesis by simp
qed

lemma binary64_error:
  assumes "0 < x"
  shows "\<bar>binary64 x - x\<bar> \<le> x / 2 ^ 53"
proof -
  let ?k = "52 - ilog2 x"
  let ?s = "x * pow2 ?k"
  let ?m = "rat_of_int (round_half_even ?s)"
  have p: "0 < pow2 ?k" by simp
  from scaled_bounds(1) [OF assms] have "1 / 2 \<le> ?s / 2 ^ 53" by simp
  with round_half_even_error [of ?s] have h: "\<bar>?m - ?s\<bar> \<le> ?s / 2 ^ 53" by linarith
  have "\<bar>?m - ?s\<bar> / pow2 ?k \<le> (?s / 2 ^ 53) / pow2 ?k"
    by (rule divide_right_mono [OF h]) simp
  moreover have "\<bar>?m - ?s\<bar> / pow2 ?k = \<bar>?m / pow2 ?k - x\<bar>"
    by (rule abs_diff_divide [OF p])
  moreover have "(?s / 2 ^ 53) / pow2 ?k = x / 2 ^ 53"
    using p by simp
  ultimately show ?thesis by (simp add: binary64_pos [OF assms])
qed

subsection \<open>The completion rate\<close>

lemma binary64_exact:
  "binary64 1 = 1" "binary64 (3 / 4) = 3 / 4" "binary64 (1 / 2) = 1 / 2" "binary64 (1 / 4) = 1 / 4"
  "binary64 100 = 100" "binary64 75 = 75" "binary64 50 = 50" "binary64 25 = 25"
  by code_simp+

lemma binary64_zero [simp]: "binary64 0 = 0"
  by (simp add: binary64_def)

lemma binary64_positive: "0 < x \<Longrightarrow> 0 < binary64 x"
  using binary64_in_binade(1) [of x] pow2_pos [of "ilog2 x"] by linarith

lemma completion_rate_pos:
  "0 < t \<Longrightarrow> completion_rate c t = binary64 (binary64 (of_int c / of_int t) * 100)"
  by (simp add: completion_rate_def)

lemma rate_at_least:
  assumes t: "0 < t" and q: "0 < q" "binary64 q = q" "binary64 (q * 100) = q * 100"
    and x: "q \<le> of_int c / of_int t"
  shows "q * 100 \<le> completion_rate c t"
proof -
  from binary64_mono [OF q(1) x] q(2) have "q \<le> binary64 (of_int c / of_int t)" by simp
  then have "q * 100 \<le> binary64 (of_int c / of_int t) * 100" by simp
  moreover from q(1) have "0 < q * 100" by simp
  ultimately have "binary64 (q * 100) \<le> binary64 (binary64 (of_int c / of_int t) * 100)"
    by (rule binary64_mono [rotated])
  with q(3) t show ?thesis by (simp add: completion_rate_pos)
qed

lemma rate_error:
  assumes "0 < t" "0 < c" "c \<le> t"
  shows "\<bar>completion_rate c t - 100 * of_int c / of_int t\<bar> \<le> 1 / 2 ^ 45"
proof -
  define x :: rat where "x = of_int c / of_int t"
  define fx where "fx = binary64 x"
  define fy where "fy = binary64 (fx * 100)"
  from assms have x: "0 < x" "x \<le> 1" by (simp_all add: x_def)
  from binary64_positive [OF x(1)] have fx: "0 < fx" by (simp add: fx_def)
  from binary64_error [OF x(1)] have e1: "\<bar>fx - x\<bar> \<le> x / 2 ^ 53" by (simp add: fx_def)
  from fx have "0 < fx * 100" by simp
  from binary64_error [OF this] have e2: "\<bar>fy - fx * 100\<bar> \<le> fx * 100 / 2 ^ 53" by (simp add: fy_def)
  have p53: "(2::rat) ^ 53 = 9007199254740992" and p45: "(2::rat) ^ 45 = 35184372088832"
    by simp_all
  from e1 [unfolded abs_le_iff p53]
  have a1: "fx \<le> x + x / 9007199254740992" "x - x / 9007199254740992 \<le> fx"
    by linarith+
  from e2 [unfolded abs_le_iff p53]
  have a2: "fy \<le> fx * 100 + fx * 100 / 9007199254740992"
    "fx * 100 - fx * 100 / 9007199254740992 \<le> fy"
    by linarith+
  from a1 a2 x have "fy - 100 * x \<le> 1 / 35184372088832" "- (fy - 100 * x) \<le> 1 / 35184372088832"
    by linarith+
  then have "\<bar>fy - 100 * x\<bar> \<le> 1 / 2 ^ 45" unfolding p45 by (simp only: abs_le_iff)
  moreover have "completion_rate c t = fy"
    using assms(1) by (simp add: completion_rate_pos fy_def fx_def x_def)
  ultimately show ?thesis by (simp add: x_def)
qed

lemma inverse_total_bound:
  assumes "0 < t" "t < 2 ^ 40"
  shows "1 / 2 ^ 40 < 1 / rat_of_int t"
proof -
  from assms have "0 < rat_of_int t" "rat_of_int t < rat_of_int (2 ^ 40)"
    by (simp_all only: of_int_less_iff of_int_0_less_iff)
  then have "0 < rat_of_int t" "rat_of_int t < 2 ^ 40" by simp_all
  then show ?thesis by (simp add: field_simps)
qed

lemma rate_below:
  assumes t: "0 < t" "t < 2 ^ 40" and c: "0 \<le> c" "c \<le> t" and T: "100 * c < T * t"
  shows "completion_rate c t < of_int T"
proof (cases "c = 0")
  case True
  with T t have "0 < T" by (simp add: zero_less_mult_iff)
  with True t show ?thesis by (simp add: completion_rate_pos)
next
  case False
  with c have cp: "0 < c" by simp
  from T have "100 * c \<le> T * t - 1" by simp
  then have "rat_of_int (100 * c) \<le> rat_of_int (T * t - 1)" by (simp only: of_int_le_iff)
  then have "100 * rat_of_int c \<le> rat_of_int T * rat_of_int t - 1" by simp
  moreover from t have tp: "0 < rat_of_int t" by simp
  ultimately have "100 * rat_of_int c / rat_of_int t \<le> (rat_of_int T * rat_of_int t - 1) / rat_of_int t"
    by (simp add: divide_right_mono)
  also from tp have "\<dots> = rat_of_int T - 1 / rat_of_int t"
    by (simp add: field_simps)
  finally have z: "100 * rat_of_int c / rat_of_int t \<le> rat_of_int T - 1 / rat_of_int t" .
  have p40: "(2::rat) ^ 40 = 1099511627776" and p45: "(2::rat) ^ 45 = 35184372088832"
    by simp_all
  from rate_error [OF t(1) cp c(2), unfolded abs_le_iff p45]
  have "completion_rate c t \<le> 100 * rat_of_int c / rat_of_int t + 1 / 35184372088832"
    by linarith
  with z inverse_total_bound [OF t, unfolded p40] show ?thesis by linarith
qed

lemma rate_rounding:
  assumes t: "0 < t" "t < 2 ^ 40" and c: "0 \<le> c" "c \<le> t"
  shows "\<bar>rat_of_int (round_half_even (completion_rate c t)) - 100 * of_int c / of_int t\<bar> \<le> 1 / 2"
proof (cases "c = 0")
  case True
  with t show ?thesis by (simp add: completion_rate_pos round_half_even_def)
next
  case False
  with c have cp: "0 < c" by simp
  define r where "r = round_half_even (completion_rate c t)"
  define d where "d = r * t - 100 * c"
  have p40: "(2::rat) ^ 40 = 1099511627776" and p45: "(2::rat) ^ 45 = 35184372088832"
    by simp_all
  from t have tp: "0 < rat_of_int t" by simp
  from t have "rat_of_int t < rat_of_int (2 ^ 40)" by (simp only: of_int_less_iff)
  then have tb: "rat_of_int t < 1099511627776" by simp
  have rd: "rat_of_int r - 100 * of_int c / of_int t = rat_of_int d / rat_of_int t"
    using tp by (simp add: d_def field_simps)
  from rate_error [OF t(1) cp c(2), unfolded abs_le_iff p45]
    round_half_even_error [of "completion_rate c t", unfolded abs_le_iff]
  have "rat_of_int r - 100 * of_int c / of_int t \<le> 1 / 2 + 1 / 35184372088832"
    "- (rat_of_int r - 100 * of_int c / of_int t) \<le> 1 / 2 + 1 / 35184372088832"
    unfolding r_def by linarith+
  then have "rat_of_int d / rat_of_int t \<le> 1 / 2 + 1 / 35184372088832"
    "- (rat_of_int d / rat_of_int t) \<le> 1 / 2 + 1 / 35184372088832"
    unfolding rd by simp_all
  with tp have "rat_of_int d \<le> (1 / 2 + 1 / 35184372088832) * rat_of_int t"
    "- rat_of_int d \<le> (1 / 2 + 1 / 35184372088832) * rat_of_int t"
    by (simp_all add: pos_divide_le_eq minus_divide_left del: minus_divide_left [symmetric])
  then have "rat_of_int d \<le> rat_of_int t / 2 + rat_of_int t / 35184372088832"
    "- rat_of_int d \<le> rat_of_int t / 2 + rat_of_int t / 35184372088832"
    by (simp_all add: distrib_right)
  with tb tp have "2 * rat_of_int d < rat_of_int t + 1" "- 2 * rat_of_int d < rat_of_int t + 1"
    by linarith+
  then have "rat_of_int (2 * d) < rat_of_int (t + 1)" "rat_of_int (- 2 * d) < rat_of_int (t + 1)"
    by simp_all
  then have "2 * d < t + 1" "- 2 * d < t + 1" by (simp_all only: of_int_less_iff)
  then have "2 * d \<le> t" "- 2 * d \<le> t" by simp_all
  then have "rat_of_int (2 * d) \<le> rat_of_int t" "rat_of_int (- 2 * d) \<le> rat_of_int t"
    by (simp_all only: of_int_le_iff)
  then have "rat_of_int d \<le> rat_of_int t / 2" "- rat_of_int d \<le> rat_of_int t / 2"
    by simp_all
  with tp have "rat_of_int d / rat_of_int t \<le> 1 / 2" "- (rat_of_int d / rat_of_int t) \<le> 1 / 2"
    by (simp_all add: pos_divide_le_eq minus_divide_left del: minus_divide_left [symmetric])
  then have "\<bar>rat_of_int d / rat_of_int t\<bar> \<le> 1 / 2" by (simp only: abs_le_iff)
  then show ?thesis unfolding rd [symmetric] r_def .
qed

lemma ratio_ge_iff:
  assumes "0 < t" "0 < b"
  shows "(rat_of_int a / rat_of_int b \<le> rat_of_int c / rat_of_int t) = (a * t \<le> b * c)"
proof -
  from assms have "0 < rat_of_int t" "0 < rat_of_int b" by simp_all
  then have "(rat_of_int a / rat_of_int b \<le> rat_of_int c / rat_of_int t)
      = (rat_of_int a * rat_of_int t \<le> rat_of_int b * rat_of_int c)"
    by (simp add: field_simps)
  also have "\<dots> = (rat_of_int (a * t) \<le> rat_of_int (b * c))" by simp
  also have "\<dots> = (a * t \<le> b * c)" by (simp only: of_int_le_iff)
  finally show ?thesis .
qed

lemma rate_threshold:
  assumes t: "0 < t" "t < 2 ^ 40" and c: "0 \<le> c" "c \<le> t"
    and q: "0 < a" "0 < b" "binary64 (rat_of_int a / rat_of_int b) = rat_of_int a / rat_of_int b"
      "binary64 (rat_of_int a / rat_of_int b * 100) = rat_of_int a / rat_of_int b * 100"
      "rat_of_int a / rat_of_int b * 100 = rat_of_int T" "T * b = 100 * a"
  shows "(rat_of_int T \<le> completion_rate c t) = (a * t \<le> b * c)"
proof (cases "a * t \<le> b * c")
  case True
  then have "rat_of_int a / rat_of_int b \<le> rat_of_int c / rat_of_int t"
    by (simp only: ratio_ge_iff [OF t(1) q(2)])
  moreover from q(1,2) have "0 < rat_of_int a / rat_of_int b" by simp
  ultimately have "rat_of_int a / rat_of_int b * 100 \<le> completion_rate c t"
    using rate_at_least [OF t(1) _ q(3) q(4)] by blast
  with True q(5) show ?thesis by simp
next
  case False
  then have "b * c < a * t" by simp
  then have lt: "100 * (b * c) < 100 * (a * t)" by simp
  have "b * (T * t) = (T * b) * t" by (simp only: ac_simps)
  also have "\<dots> = 100 * (a * t)" by (simp only: q(6) mult.assoc)
  finally have e1: "b * (T * t) = 100 * (a * t)" .
  have e2: "b * (100 * c) = 100 * (b * c)" by (simp only: ac_simps)
  from lt have "b * (100 * c) < b * (T * t)" by (simp only: e1 e2)
  with q(2) have "100 * c < T * t" by (simp only: mult_less_cancel_left_pos)
  from rate_below [OF t c this] False show ?thesis by simp
qed

lemma rate_thresholds:
  assumes "0 < t" "t < 2 ^ 40" "0 \<le> c" "c \<le> t"
  shows "(100 \<le> completion_rate c t) = (t \<le> c)"
    "(75 \<le> completion_rate c t) = (3 * t \<le> 4 * c)"
    "(50 \<le> completion_rate c t) = (t \<le> 2 * c)"
    "(25 \<le> completion_rate c t) = (t \<le> 4 * c)"
  using rate_threshold [OF assms, of 1 1 100] rate_threshold [OF assms, of 3 4 75]
    rate_threshold [OF assms, of 1 2 50] rate_threshold [OF assms, of 1 4 25]
  by (simp_all add: binary64_exact)

lemma rate_full:
  assumes "0 < t" "t < 2 ^ 40" "0 \<le> c" "c \<le> t"
  shows "(completion_rate c t = 100) = (c = t)"
proof
  assume "completion_rate c t = 100"
  then have "100 \<le> completion_rate c t" by simp
  with rate_thresholds(1) [OF assms] assms(4) show "c = t" by simp
next
  assume "c = t"
  with assms(1) show "completion_rate c t = 100"
    by (simp add: completion_rate_pos binary64_exact)
qed

lemma encouragement_tiers:
  assumes "0 < t" "t < 2 ^ 40" "0 \<le> c" "c \<le> t"
  shows "encouragement (completion_rate c t) =
     (if c = t then tier5
      else if 3 * t \<le> 4 * c then tier4
      else if t \<le> 2 * c then tier3
      else if t \<le> 4 * c then tier2
      else tier1)"
  by (simp only: encouragement_def rate_full [OF assms] rate_thresholds(2-4) [OF assms])

lemma count_status_bounds: "0 \<le> count_status s ts" "count_status s ts \<le> int (length ts)"
  by (simp_all add: count_status_def)

lemma get_daily_summary_nonempty:
  "tasks a \<noteq> [] \<Longrightarrow>
   get_daily_summary a =
     summary_text (int (length (tasks a))) (count_status ''completed'' (tasks a))
       (count_status ''pending'' (tasks a)) (high_priority_pending (tasks a))
       (str_int (round_half_even
          (completion_rate (count_status ''completed'' (tasks a)) (int (length (tasks a))))))
       (encouragement
          (completion_rate (count_status ''completed'' (tasks a)) (int (length (tasks a)))))"
  by (simp add: get_daily_summary_def Let_def format_0f_def)

lemma str_int_75: "str_int 75 = ''75''"
  by code_simp

lemma rate_3_4: "completion_rate 3 4 = 75"
  by (simp add: completion_rate_def binary64_exact)

lemma round_75: "round_half_even 75 = 75"
  using round_half_even_of_int [of 75] by simp

lemma three_of_four_counts:
  "length (tasks three_of_four) = 4" "count_status ''completed'' (tasks three_of_four) = 3"
  "count_status ''pending'' (tasks three_of_four) = 1" "high_priority_pending (tasks three_of_four) = 0"
  by (simp_all add: three_of_four_def count_status_def high_priority_pending_def
        completed_task_def pending_task_def)

lemma thirty_eight_counts:
  "length (tasks thirty_eight_of_fifty_one) = 51"
  "count_status ''completed'' (tasks thirty_eight_of_fifty_one) = 38"
  "count_status ''pending'' (tasks thirty_eight_of_fifty_one) = 13"
  "high_priority_pending (tasks thirty_eight_of_fifty_one) = 0"
  by (simp_all add: thirty_eight_of_fifty_one_def count_status_def high_priority_pending_def
        completed_task_def pending_task_def filter_map comp_def)

lemma rate_38_51: "completion_rate 38 51 = 5243161330884769 / 70368744177664"
  by code_simp

lemma reported_38_51: "round_half_even (completion_rate 38 51) = 75"
  unfolding rate_38_51 by code_simp

text \<open>
  Claim C2, as amended. On an empty list \<open>get_daily_summary\<close> answers with the message
  for the empty list and computes nothing. On a list of at least one and fewer than
  \<open>2 ^ 40\<close> tasks, the progress it prints is an integer at most one half away from the
  exact value of completed / total * 100, and the message is selected by the quotient
  itself, not by the integer printed: tier 5 when all tasks are completed, else tier 4
  when \<open>3 * total \<le> 4 * completed\<close> (the exact quotient is at least 75), else tier 3
  when \<open>total \<le> 2 * completed\<close> (at least 50), else tier 2 when
  \<open>total \<le> 4 * completed\<close> (at least 25), else tier 1. The floats of the source decide
  these comparisons like exact arithmetic does. With four tasks of which three are
  completed, the progress printed is 75 and the message is tier 4.
\<close>

theorem daily_summary_rate_and_tier:
  "get_daily_summary \<lparr>tasks = [], task_id_counter = n\<rparr> = empty_summary
   \<and> (tasks a \<noteq> [] \<and> length (tasks a) < 2 ^ 40 \<longrightarrow>
        (let total_tasks = int (length (tasks a));
             completed = count_status ''completed'' (tasks a);
             rate = completion_rate completed total_tasks
         in get_daily_summary a =
              summary_text total_tasks completed (count_status ''pending'' (tasks a))
                (high_priority_pending (tasks a)) (str_int (round_half_even rate))
                (encouragement rate)
          \<and> \<bar>rat_of_int (round_half_even rate)
               - 100 * rat_of_int completed / rat_of_int total_tasks\<bar> \<le> 1 / 2
          \<and> encouragement rate =
               (if completed = total_tasks then tier5
                else if 3 * total_tasks \<le> 4 * completed then tier4
                else if total_tasks \<le> 2 * completed then tier3
                else if total_tasks \<le> 4 * completed then tier2
                else tier1)))
   \<and> (length (tasks a) = 4 \<and> count_status ''completed'' (tasks a) = 3 \<longrightarrow>
        get_daily_summary a =
          summary_text 4 3 (count_status ''pending'' (tasks a)) (high_priority_pending (tasks a))
            ''75'' tier4)"
proof (intro conjI impI)
  show "get_daily_summary \<lparr>tasks = [], task_id_counter = n\<rparr> = empty_summary"
    by (simp add: get_daily_summary_def)
next
  assume h: "tasks a \<noteq> [] \<and> length (tasks a) < 2 ^ 40"
  then have t: "0 < int (length (tasks a))" by simp
  from h have "int (length (tasks a)) < int (2 ^ 40)" by (simp only: of_nat_less_iff)
  then have b: "int (length (tasks a)) < 2 ^ 40" by simp
  note c = count_status_bounds [of "''completed''" "tasks a"]
  from h get_daily_summary_nonempty [of a] rate_rounding [OF t b c] encouragement_tiers [OF t b c]
  show "let total_tasks = int (length (tasks a));
             completed = count_status ''completed'' (tasks a);
             rate = completion_rate completed total_tasks
         in get_daily_summary a =
              summary_text total_tasks completed (count_status ''pending'' (tasks a))
                (high_priority_pending (tasks a)) (str_int (round_half_even rate))
                (encouragement rate)
          \<and> \<bar>rat_of_int (round_half_even rate)
               - 100 * rat_of_int completed / rat_of_int total_tasks\<bar> \<le> 1 / 2
          \<and> encouragement rate =
               (if completed = total_tasks then tier5
                else if 3 * total_tasks \<le> 4 * completed then tier4
                else if total_tasks \<le> 2 * completed then tier3
                else if total_tasks \<le> 4 * completed then tier2
                else tier1)"
    unfolding Let_def by blast
next
  assume h: "length (tasks a) = 4 \<and> count_status ''completed'' (tasks a) = 3"
  then have "tasks a \<noteq> []" by auto
  from get_daily_summary_nonempty [OF this] h
  show "get_daily_summary a =
          summary_text 4 3 (count_status ''pending'' (tasks a)) (high_priority_pending (tasks a))
            ''75'' tier4"
    by (simp add: rate_3_4 round_75 str_int_75 encouragement_def)
qed

theorem daily_summary_rate_and_tier_witness:
  "tasks three_of_four \<noteq> []
   \<and> length (tasks three_of_four) < 2 ^ 40
   \<and> length (tasks three_of_four) = 4
   \<and> count_status ''completed'' (tasks three_of_four) = 3
   \<and> get_daily_summary three_of_four = summary_text 4 3 1 0 ''75'' tier4
   \<and> encouragement (completion_rate 3 4) = tier4
   \<and> \<bar>rat_of_int (round_half_even (completion_rate 3 4)) - 100 * 3 / 4\<bar> \<le> 1 / 2"
proof -
  have h: "tasks three_of_four \<noteq> [] \<and> length (tasks three_of_four) < 2 ^ 40"
    using three_of_four_counts(1) by auto
  have k: "length (tasks three_of_four) = 4 \<and> count_status ''completed'' (tasks three_of_four) = 3"
    by (simp add: three_of_four_counts)
  note inst = daily_summary_rate_and_tier [of 0 three_of_four]
  from inst k have s: "get_daily_summary three_of_four = summary_text 4 3 1 0 ''75'' tier4"
    by (simp add: three_of_four_counts)
  from inst h have "encouragement (completion_rate 3 4) = tier4
     \<and> \<bar>rat_of_int (round_half_even (completion_rate 3 4)) - 100 * 3 / 4\<bar> \<le> 1 / 2"
    unfolding Let_def three_of_four_counts by simp
  with h k s show ?thesis by blast
qed

text \<open>
  Claim C2 as it was stated fails where rounding lifts the rate over a threshold. With
  51 tasks of which 38 are completed the float is 74.5098..., the progress printed is
  75, and the message is tier 3, since the source compares the float that is not
  rounded; selecting by the rate reported, 75, gives tier 4.
\<close>

theorem tier_follows_unrounded_rate:
  "get_daily_summary thirty_eight_of_fifty_one = summary_text 51 38 13 0 ''75'' tier3
   \<and> spec_encouragement 75 = tier4
   \<and> tier3 \<noteq> tier4"
proof -
  have "tasks thirty_eight_of_fifty_one \<noteq> []"
    using thirty_eight_counts(1) by auto
  from get_daily_summary_nonempty [OF this]
  have "get_daily_summary thirty_eight_of_fifty_one = summary_text 51 38 13 0 ''75''
          (encouragement (completion_rate 38 51))"
    by (simp add: thirty_eight_counts reported_38_51 str_int_75)
  moreover have "encouragement (completion_rate 38 51) = tier3"
    unfolding rate_38_51 by (simp add: encouragement_def)
  moreover have "spec_encouragement 75 = tier4" by (simp add: spec_encouragement_def)
  moreover have "tier3 \<noteq> tier4" by (simp add: tier3_def tier4_def thumbs_up_def glowing_star_def)
  ultimately show ?thesis by simp
qed


end
